theory Spec2Isabelle
  imports Main "HOL-Library.AList" "HOL-Library.Sublist"
begin

section \<open>Todo-Beads synchronisation: the data model\<close>

text \<open>
  The module under verification is the todo-sync module of the plugin: it maps the todos of
  an OpenCode session to issues of the beads tracker (\<^verbatim>\<open>bd\<close>), and keeps the
  correspondence in a JSON file.

  Conventions of the embedding.
  \<^item> A JavaScript object used as a dictionary (\<^verbatim>\<open>Record<string, ...>\<close>) is an
    association list in insertion order; a read \<^verbatim>\<open>o[k]\<close> is \<open>map_of o k\<close>,
    a write \<^verbatim>\<open>o[k] = v\<close> is \<open>AList.update k v o\<close> and \<^verbatim>\<open>delete o[k]\<close> is
    \<open>AList.delete k o\<close>. Only an object's own keys are looked up, and the theorems do
    not depend on the order in which the entries of a map are visited (JavaScript visits
    integer-like keys first).
  \<^item> \<^verbatim>\<open>undefined\<close> is \<open>None\<close>; a string is truthy when it is defined and not empty.
  \<^item> The todo status has the four values of its TypeScript type. The todo priority and the
    fields read from the tracker's JSON are kept as the strings and numbers they are at run
    time, because the code defends against values outside their declared types.
\<close>

datatype todo_status = pending | in_progress | completed | cancelled

record TodoItem =
  todo_id :: string
  todo_content :: string
  todo_status :: todo_status
  todo_priority :: string

record BeadsIssue =
  issue_id :: string
  issue_title :: string
  issue_description :: "string option"
  issue_status :: string
  issue_priority :: int
  issue_type :: string
  issue_notes :: "string option"

record TodoBeadsMapping =
  sessions :: "(string \<times> string) list"
  todos :: "(string \<times> (string \<times> string) list) list"
  lastSync :: nat

definition truthy :: "string option \<Rightarrow> bool" where
  "truthy v = (case v of None \<Rightarrow> False | Some s \<Rightarrow> s \<noteq> [])"

section \<open>Constants: the translation tables\<close>

definition PRIORITY_TO_BEADS :: "(string \<times> int) list" where
  "PRIORITY_TO_BEADS = [(''high'', 1), (''medium'', 2), (''low'', 3)]"

definition PRIORITY_FROM_BEADS :: "(int \<times> string) list" where
  "PRIORITY_FROM_BEADS =
     [(0, ''high''), (1, ''high''), (2, ''medium''), (3, ''low''), (4, ''low'')]"

fun STATUS_TO_BEADS :: "todo_status \<Rightarrow> string" where
  "STATUS_TO_BEADS pending = ''open''"
| "STATUS_TO_BEADS in_progress = ''in_progress''"
| "STATUS_TO_BEADS completed = ''closed''"
| "STATUS_TO_BEADS cancelled = ''closed''"

text \<open>
  \<^verbatim>\<open>PRIORITY_TO_BEADS[todo.priority] ?? 2\<close> and
  \<^verbatim>\<open>PRIORITY_FROM_BEADS[issue.priority] ?? "medium"\<close>, as they stand in
  \<^verbatim>\<open>createBeadsIssue\<close> and \<^verbatim>\<open>beadsIssueToTodo\<close>.
\<close>

definition priority_to_beads :: "string \<Rightarrow> int" where
  "priority_to_beads p = (case map_of PRIORITY_TO_BEADS p of Some n \<Rightarrow> n | None \<Rightarrow> 2)"

definition priority_from_beads :: "int \<Rightarrow> string" where
  "priority_from_beads n =
     (case map_of PRIORITY_FROM_BEADS n of Some p \<Rightarrow> p | None \<Rightarrow> ''medium'')"

text \<open>
  The closing reason, written the same way in \<^verbatim>\<open>createBeadsIssue\<close> and in
  \<^verbatim>\<open>updateBeadsIssue\<close>:
  \<^verbatim>\<open>todo.status === "cancelled" ? "Cancelled in OpenCode" : "Completed"\<close>.
\<close>

definition close_reason :: "todo_status \<Rightarrow> string" where
  "close_reason st = (if st = cancelled then ''Cancelled in OpenCode'' else ''Completed'')"

text \<open>\<^verbatim>\<open>s.includes(sub)\<close>: \<open>sub\<close> occurs in \<open>s\<close> as a contiguous run.\<close>

fun str_includes :: "string \<Rightarrow> string \<Rightarrow> bool" where
  "str_includes [] sub = (sub = [])"
| "str_includes (c # cs) sub = (prefix sub (c # cs) \<or> str_includes cs sub)"

section \<open>Converting a beads issue back to a todo\<close>

definition beadsIssueToTodo :: "string \<Rightarrow> BeadsIssue \<Rightarrow> TodoItem" where
  "beadsIssueToTodo todoID issue =
     \<lparr> todo_id = todoID,
       todo_content = issue_title issue,
       todo_status =
         (if issue_status issue = ''in_progress'' then in_progress
          else if issue_status issue = ''closed'' then
            (case issue_notes issue of
               None \<Rightarrow> completed
             | Some n \<Rightarrow> if str_includes n ''Cancelled'' then cancelled else completed)
          else pending),
       todo_priority = priority_from_beads (issue_priority issue) \<rparr>"

section \<open>The outside world: the tracker, the clock and the mapping file\<close>

text \<open>
  What \<^verbatim>\<open>bd show ID --json\<close> prints, parsed: the code tests the parsed value with
  \<^verbatim>\<open>Array.isArray\<close> in one place and reads \<^verbatim>\<open>result.id\<close> in another, so the
  model keeps the shape: \<^verbatim>\<open>null\<close>, one issue object, or an array of issue objects.
  An issue object without an \<^verbatim>\<open>id\<close> is one whose \<open>issue_id\<close> is empty (both are falsy).
\<close>

datatype json = JNull | JObject BeadsIssue | JArray "BeadsIssue list"

text \<open>
  The commands given to the shell. \<open>Create title type priority parent description\<close> is
  \<^verbatim>\<open>bd create TITLE -t TYPE -p PRIORITY [--parent PARENT] -d DESCRIPTION --json\<close>.
\<close>

datatype cmd =
    Show string
  | Create string string int "string option" string
  | UpdateStatus string string
  | UpdateNotes string string
  | Close string string

text \<open>
  The host of the module: the tracker behind the shell and the clock, over a state \<open>'e\<close> that
  the module never sees. Every call may fail (\<open>None\<close>, \<open>False\<close>: the shell call throws) and
  may change the state. \<open>bd_create\<close> yields \<^verbatim>\<open>result.id\<close>, a string as the return
  types of the callers declare. The theorems hold for every host.
\<close>

record 'e host =
  bd_show :: "string \<Rightarrow> 'e \<Rightarrow> json option \<times> 'e"
  bd_create :: "string \<Rightarrow> string \<Rightarrow> int \<Rightarrow> string option \<Rightarrow> string \<Rightarrow> 'e \<Rightarrow> string option \<times> 'e"
  bd_update_status :: "string \<Rightarrow> string \<Rightarrow> 'e \<Rightarrow> bool \<times> 'e"
  bd_update_notes :: "string \<Rightarrow> string \<Rightarrow> 'e \<Rightarrow> bool \<times> 'e"
  bd_close :: "string \<Rightarrow> string \<Rightarrow> 'e \<Rightarrow> bool \<times> 'e"
  Date_now :: "'e \<Rightarrow> nat"
  Date_iso :: "'e \<Rightarrow> string"

text \<open>
  The mapping file holds text. The model keeps of a text what \<^verbatim>\<open>JSON.parse\<close> makes of it:
  \<open>Garbage\<close> is a text that \<^verbatim>\<open>JSON.parse\<close> rejects, \<open>Document m\<close> is the text of the
  mapping \<open>m\<close> (what \<^verbatim>\<open>JSON.stringify\<close> writes and \<^verbatim>\<open>JSON.parse\<close> reads back).
  No file at all is \<open>None\<close>. A text that parses to something else than a mapping is
  outside the model: \<^verbatim>\<open>loadMapping\<close> returns whatever parses, under the return type
  \<^verbatim>\<open>TodoBeadsMapping\<close>.
\<close>

datatype file_content = Garbage string | Document TodoBeadsMapping

text \<open>
  The world of one run: the host's state, the mapping file, and the log of the commands
  given to the shell so far, each with whether it returned (\<open>True\<close>) or threw. The log is
  not in the source; the theorems read it.
\<close>

record 'e world =
  outside :: 'e
  mapping_file :: "file_content option"
  calls :: "(cmd \<times> bool) list"

datatype error = ENOENT | SyntaxError | SessionIssueError | TodoIssueError string

definition sh_show :: "'e host \<Rightarrow> string \<Rightarrow> 'e world \<Rightarrow> json option \<times> 'e world" where
  "sh_show h i w =
     (case bd_show h i (outside w) of
        (r, e) \<Rightarrow> (r, w\<lparr>outside := e, calls := calls w @ [(Show i, r \<noteq> None)]\<rparr>))"

definition sh_create ::
  "'e host \<Rightarrow> string \<Rightarrow> string \<Rightarrow> int \<Rightarrow> string option \<Rightarrow> string \<Rightarrow> 'e world
     \<Rightarrow> string option \<times> 'e world" where
  "sh_create h title ty p parent d w =
     (case bd_create h title ty p parent d (outside w) of
        (r, e) \<Rightarrow> (r, w\<lparr>outside := e, calls := calls w @ [(Create title ty p parent d, r \<noteq> None)]\<rparr>))"

definition sh_update_status :: "'e host \<Rightarrow> string \<Rightarrow> string \<Rightarrow> 'e world \<Rightarrow> bool \<times> 'e world" where
  "sh_update_status h i st w =
     (case bd_update_status h i st (outside w) of
        (r, e) \<Rightarrow> (r, w\<lparr>outside := e, calls := calls w @ [(UpdateStatus i st, r)]\<rparr>))"

definition sh_update_notes :: "'e host \<Rightarrow> string \<Rightarrow> string \<Rightarrow> 'e world \<Rightarrow> bool \<times> 'e world" where
  "sh_update_notes h i n w =
     (case bd_update_notes h i n (outside w) of
        (r, e) \<Rightarrow> (r, w\<lparr>outside := e, calls := calls w @ [(UpdateNotes i n, r)]\<rparr>))"

definition sh_close :: "'e host \<Rightarrow> string \<Rightarrow> string \<Rightarrow> 'e world \<Rightarrow> bool \<times> 'e world" where
  "sh_close h i reason w =
     (case bd_close h i reason (outside w) of
        (r, e) \<Rightarrow> (r, w\<lparr>outside := e, calls := calls w @ [(Close i reason, r)]\<rparr>))"

section \<open>Mapping file management\<close>

definition emptyMapping :: TodoBeadsMapping where
  "emptyMapping = \<lparr> sessions = [], todos = [], lastSync = 0 \<rparr>"

definition readFile :: "'e world \<Rightarrow> error + file_content" where
  "readFile w = (case mapping_file w of None \<Rightarrow> Inl ENOENT | Some c \<Rightarrow> Inr c)"

definition JSON_parse :: "file_content \<Rightarrow> error + TodoBeadsMapping" where
  "JSON_parse c = (case c of Garbage s \<Rightarrow> Inl SyntaxError | Document m \<Rightarrow> Inr m)"

text \<open>
  \<^verbatim>\<open>loadMapping\<close>: both the read and the parse stand in one \<^verbatim>\<open>try\<close>, whose
  \<^verbatim>\<open>catch\<close> returns the empty mapping.
\<close>

definition loadMapping :: "'e world \<Rightarrow> error + TodoBeadsMapping" where
  "loadMapping w =
     (case readFile w of
        Inl e \<Rightarrow> Inr emptyMapping
      | Inr content \<Rightarrow>
          (case JSON_parse content of
             Inl e \<Rightarrow> Inr emptyMapping
           | Inr m \<Rightarrow> Inr m))"

text \<open>
  \<^verbatim>\<open>saveMapping\<close> sets \<^verbatim>\<open>lastSync\<close> on the mapping object itself and rewrites the whole
  file; the mapping as mutated is returned with the world. Creating the directory and the
  \<^verbatim>\<open>.gitignore\<close> entry touch neither the mapping file nor the tracker and are left out;
  writes to the file system are taken to succeed.
\<close>

definition saveMapping ::
  "'e host \<Rightarrow> TodoBeadsMapping \<Rightarrow> 'e world \<Rightarrow> TodoBeadsMapping \<times> 'e world" where
  "saveMapping h mapping w =
     (let mapping' = mapping\<lparr>lastSync := Date_now h (outside w)\<rparr>
      in (mapping', w\<lparr>mapping_file := Some (Document mapping')\<rparr>))"

section \<open>Session issue management\<close>

text \<open>\<^verbatim>\<open>Array.isArray(result) && result[0]?.id\<close>, on the reply of the lookup.\<close>

definition found :: "json option \<Rightarrow> bool" where
  "found r = (case r of Some (JArray (i # rest)) \<Rightarrow> issue_id i \<noteq> [] | _ \<Rightarrow> False)"

text \<open>The second half of \<^verbatim>\<open>getOrCreateSessionIssue\<close>: create a new session issue.\<close>

definition createSessionIssue ::
  "'e host \<Rightarrow> string \<Rightarrow> TodoBeadsMapping \<Rightarrow> 'e world
     \<Rightarrow> (error + string \<times> TodoBeadsMapping) \<times> 'e world" where
  "createSessionIssue h sessionID mapping w =
     (let shortSessionID = take 8 sessionID;
          timestamp = Date_iso h (outside w);
          title = ''OpenCode Session '' @ shortSessionID @ '' ('' @ timestamp @ '')''
      in case sh_create h title ''epic'' 2 None
                (''Tracks todos for OpenCode session '' @ sessionID) w of
           (None, w1) \<Rightarrow> (Inl SessionIssueError, w1)
         | (Some issueID, w1) \<Rightarrow>
             (let mapping1 = mapping\<lparr>sessions := AList.update sessionID issueID (sessions mapping)\<rparr>;
                  mapping2 = mapping1\<lparr>todos := AList.update sessionID [] (todos mapping1)\<rparr>
              in case saveMapping h mapping2 w1 of
                   (mapping3, w2) \<Rightarrow> (Inr (issueID, mapping3), w2)))"

definition getOrCreateSessionIssue ::
  "'e host \<Rightarrow> string \<Rightarrow> TodoBeadsMapping \<Rightarrow> 'e world
     \<Rightarrow> (error + string \<times> TodoBeadsMapping) \<times> 'e world" where
  "getOrCreateSessionIssue h sessionID mapping w =
     (case map_of (sessions mapping) sessionID of
        None \<Rightarrow> createSessionIssue h sessionID mapping w
      | Some recorded \<Rightarrow>
          if recorded = [] then createSessionIssue h sessionID mapping w
          else (case sh_show h recorded w of
                  (result, w1) \<Rightarrow>
                    if found result then (Inr (recorded, mapping), w1)
                    else createSessionIssue h sessionID mapping w1))"

section \<open>Todo synchronisation\<close>

definition createBeadsIssue ::
  "'e host \<Rightarrow> string \<Rightarrow> TodoItem \<Rightarrow> 'e world \<Rightarrow> (error + string) \<times> 'e world" where
  "createBeadsIssue h sessionIssueID todo w =
     (let priority = priority_to_beads (todo_priority todo);
          notes = ''OpenCode todo ID: '' @ todo_id todo
      in case sh_create h (todo_content todo) ''task'' priority (Some sessionIssueID) notes w of
           (None, w1) \<Rightarrow> (Inl (TodoIssueError (todo_id todo)), w1)
         | (Some result_id, w1) \<Rightarrow>
             if todo_status todo = in_progress then
               (case sh_update_status h result_id ''in_progress'' w1 of
                  (ok, w2) \<Rightarrow>
                    if ok then (Inr result_id, w2)
                    else (Inl (TodoIssueError (todo_id todo)), w2))
             else if todo_status todo = completed \<or> todo_status todo = cancelled then
               (case sh_close h result_id (close_reason (todo_status todo)) w1 of
                  (ok, w2) \<Rightarrow>
                    if ok then (Inr result_id, w2)
                    else (Inl (TodoIssueError (todo_id todo)), w2))
             else (Inr result_id, w1))"

definition updateBeadsIssue :: "'e host \<Rightarrow> string \<Rightarrow> TodoItem \<Rightarrow> 'e world \<Rightarrow> 'e world" where
  "updateBeadsIssue h beadsID todo w =
     (let beadsStatus = STATUS_TO_BEADS (todo_status todo)
      in if beadsStatus = ''closed''
         then snd (sh_close h beadsID (close_reason (todo_status todo)) w)
         else snd (sh_update_status h beadsID beadsStatus w))"

text \<open>\<^verbatim>\<open>${n}\<close> for a count: the decimal numeral.\<close>

fun decimal :: "nat \<Rightarrow> string" where
  "decimal n =
     (if n < 10 then [''0123456789'' ! n]
      else decimal (n div 10) @ [''0123456789'' ! (n mod 10)])"

declare decimal.simps [simp del]

definition summary_of :: "TodoItem list \<Rightarrow> string" where
  "summary_of ts =
     (let completed_n = length (filter (\<lambda>t. todo_status t = completed) ts);
          cancelled_n = length (filter (\<lambda>t. todo_status t = cancelled) ts)
      in ''Session complete: '' @ decimal completed_n @ '' completed, ''
           @ decimal cancelled_n @ '' cancelled'')"

text \<open>
  \<^verbatim>\<open>closeSessionIssue\<close>: the notes update and the close stand in one \<^verbatim>\<open>try\<close>; when
  the update throws, the close is not reached, and the \<^verbatim>\<open>catch\<close> swallows either failure.
\<close>

definition closeSessionIssue :: "'e host \<Rightarrow> string \<Rightarrow> TodoItem list \<Rightarrow> 'e world \<Rightarrow> 'e world" where
  "closeSessionIssue h sessionIssueID ts w =
     (let summary = summary_of ts
      in case sh_update_notes h sessionIssueID summary w of
           (ok, w1) \<Rightarrow> if ok then snd (sh_close h sessionIssueID summary w1) else w1)"

text \<open>
  The first loop of \<^verbatim>\<open>syncTodosToBeads\<close>, over the todos in input order; its state is the
  session's todo map and the set of todo ids seen. A failed creation leaves the loop.
\<close>

fun sync_loop ::
  "'e host \<Rightarrow> string \<Rightarrow> TodoItem list \<Rightarrow> (string \<times> string) list \<Rightarrow> string set \<Rightarrow> 'e world
     \<Rightarrow> (error + (string \<times> string) list \<times> string set) \<times> 'e world" where
  "sync_loop h sessionIssueID [] todoMap seenTodoIDs w = (Inr (todoMap, seenTodoIDs), w)"
| "sync_loop h sessionIssueID (todo # rest) todoMap seenTodoIDs w =
     (let seen1 = insert (todo_id todo) seenTodoIDs;
          existingBeadsID = map_of todoMap (todo_id todo)
      in if truthy existingBeadsID then
           sync_loop h sessionIssueID rest todoMap seen1
             (updateBeadsIssue h (the existingBeadsID) todo w)
         else
           (case createBeadsIssue h sessionIssueID todo w of
              (Inl e, w1) \<Rightarrow> (Inl e, w1)
            | (Inr newBeadsID, w1) \<Rightarrow>
                sync_loop h sessionIssueID rest
                  (AList.update (todo_id todo) newBeadsID todoMap) seen1 w1))"

text \<open>
  The second loop, over the entries the todo map had when the loop began
  (\<^verbatim>\<open>Object.entries\<close> copies them): an entry whose todo was not seen is closed in the
  tracker, whatever the close answers, and deleted from the map.
\<close>

fun delete_loop ::
  "'e host \<Rightarrow> string set \<Rightarrow> (string \<times> string) list \<Rightarrow> (string \<times> string) list \<Rightarrow> 'e world
     \<Rightarrow> (string \<times> string) list \<times> 'e world" where
  "delete_loop h seenTodoIDs [] todoMap w = (todoMap, w)"
| "delete_loop h seenTodoIDs ((todoID, beadsID) # entries) todoMap w =
     (if todoID \<notin> seenTodoIDs then
        delete_loop h seenTodoIDs entries (AList.delete todoID todoMap)
          (snd (sh_close h beadsID ''Todo removed from OpenCode'' w))
      else delete_loop h seenTodoIDs entries todoMap w)"

definition allComplete :: "TodoItem list \<Rightarrow> bool" where
  "allComplete ts = list_all (\<lambda>t. todo_status t = completed \<or> todo_status t = cancelled) ts"

definition syncTodosToBeads ::
  "'e host \<Rightarrow> string \<Rightarrow> TodoItem list \<Rightarrow> 'e world \<Rightarrow> (error + unit) \<times> 'e world" where
  "syncTodosToBeads h sessionID ts w =
     (case loadMapping w of
        Inl e \<Rightarrow> (Inl e, w)
      | Inr mapping0 \<Rightarrow>
     (case getOrCreateSessionIssue h sessionID mapping0 w of
        (Inl e, w1) \<Rightarrow> (Inl e, w1)
      | (Inr (sessionIssueID, mapping1), w1) \<Rightarrow>
     (let mapping2 =
            (if map_of (todos mapping1) sessionID = None
             then mapping1\<lparr>todos := AList.update sessionID [] (todos mapping1)\<rparr>
             else mapping1);
          todoMap = the (map_of (todos mapping2) sessionID)
      in case sync_loop h sessionIssueID ts todoMap {} w1 of
           (Inl e, w2) \<Rightarrow> (Inl e, w2)
         | (Inr (todoMap1, seenTodoIDs), w2) \<Rightarrow>
     (case delete_loop h seenTodoIDs todoMap1 todoMap1 w2 of
        (todoMap2, w3) \<Rightarrow>
     (let w4 = (if allComplete ts \<and> ts \<noteq> []
                then closeSessionIssue h sessionIssueID ts w3 else w3);
          mapping3 = mapping2\<lparr>todos := AList.update sessionID todoMap2 (todos mapping2)\<rparr>
      in (Inr (), snd (saveMapping h mapping3 w4)))))))"

section \<open>Reading todos from beads\<close>

text \<open>
  The loop of \<^verbatim>\<open>readTodosFromBeads\<close>: an entry is pushed when the lookup does not throw
  and \<^verbatim>\<open>result && result.id\<close> is truthy. On an array \<^verbatim>\<open>result.id\<close> is undefined.
\<close>

fun read_loop ::
  "'e host \<Rightarrow> (string \<times> string) list \<Rightarrow> 'e world \<Rightarrow> TodoItem list \<times> 'e world" where
  "read_loop h [] w = ([], w)"
| "read_loop h ((todoID, beadsID) # entries) w =
     (case sh_show h beadsID w of
        (Some (JObject result), w1) \<Rightarrow>
          if issue_id result \<noteq> [] then
            (case read_loop h entries w1 of
               (rest, w2) \<Rightarrow> (beadsIssueToTodo todoID result # rest, w2))
          else read_loop h entries w1
      | (_, w1) \<Rightarrow> read_loop h entries w1)"

definition readTodosFromBeads ::
  "'e host \<Rightarrow> string \<Rightarrow> 'e world \<Rightarrow> (error + TodoItem list) \<times> 'e world" where
  "readTodosFromBeads h sessionID w =
     (case loadMapping w of
        Inl e \<Rightarrow> (Inl e, w)
      | Inr mapping \<Rightarrow>
          if \<not> truthy (map_of (sessions mapping) sessionID) then (Inr [], w)
          else
            (let todoMap = (case map_of (todos mapping) sessionID of
                              None \<Rightarrow> [] | Some m \<Rightarrow> m)
             in case read_loop h todoMap w of (ts, w1) \<Rightarrow> (Inr ts, w1)))"

section \<open>Vocabulary of the theorems\<close>

fun is_create :: "cmd \<Rightarrow> bool" where
  "is_create (Create title ty p parent d) = True"
| "is_create c = False"

text \<open>The tracker never hands out an empty id for an issue it created.\<close>

definition mints_nonempty :: "'e host \<Rightarrow> bool" where
  "mints_nonempty h =
     (\<forall>title ty p parent d e n. fst (bd_create h title ty p parent d e) = Some n \<longrightarrow> n \<noteq> [])"

text \<open>
  The session has a recorded epic in the mapping file, and the lookup of that epic, made
  in this world, finds it.
\<close>

definition epic_found :: "'e host \<Rightarrow> string \<Rightarrow> 'e world \<Rightarrow> bool" where
  "epic_found h sessionID w =
     (case loadMapping w of
        Inl e \<Rightarrow> False
      | Inr m \<Rightarrow>
          (case map_of (sessions m) sessionID of
             None \<Rightarrow> False
           | Some recorded \<Rightarrow> recorded \<noteq> [] \<and> found (fst (bd_show h recorded (outside w)))))"

text \<open>The todo map of a session in a mapping, empty when there is none.\<close>

definition session_todos :: "TodoBeadsMapping \<Rightarrow> string \<Rightarrow> (string \<times> string) list" where
  "session_todos m sessionID = (case map_of (todos m) sessionID of None \<Rightarrow> [] | Some tm \<Rightarrow> tm)"


text \<open>The todo map recorded for a session in the mapping file.\<close>

definition recorded_todos :: "'e world \<Rightarrow> string \<Rightarrow> (string \<times> string) list" where
  "recorded_todos w sessionID =
     (case loadMapping w of Inl e \<Rightarrow> [] | Inr m \<Rightarrow> session_todos m sessionID)"

text \<open>
  The commands of the first two steps of a pass (resolving the epic, then one update or
  creation per todo): lookups, creations, status updates and closes with one of the two
  per-todo reasons. The closes of removed todos and the notes update and close of the
  epic are not among them.
\<close>

fun before_cleanup :: "cmd \<Rightarrow> bool" where
  "before_cleanup (Close i reason) = (reason = ''Completed'' \<or> reason = ''Cancelled in OpenCode'')"
| "before_cleanup (UpdateNotes i n) = False"
| "before_cleanup c = True"

subsection \<open>A simulated host, for running the code on concrete inputs\<close>

text \<open>
  Its state counts the issues created so far; the id of a new issue is \<open>bd-\<close> and the
  count. What a lookup prints, which titles can be created and whether a notes update
  succeeds are parameters; status updates and closes succeed.
\<close>

definition an_issue :: "string \<Rightarrow> BeadsIssue" where
  "an_issue i =
     \<lparr> issue_id = i, issue_title = ''title of '' @ i, issue_description = None,
       issue_status = ''open'', issue_priority = 2, issue_type = ''task'',
       issue_notes = None \<rparr>"

definition sim_host ::
  "(string \<Rightarrow> json option) \<Rightarrow> (string \<Rightarrow> bool) \<Rightarrow> bool \<Rightarrow> nat host" where
  "sim_host shown creatable notes_ok =
     \<lparr> bd_show = (\<lambda>i e. (shown i, e)),
       bd_create = (\<lambda>title ty p parent d e.
          if creatable title then (Some (''bd-'' @ decimal e), Suc e) else (None, e)),
       bd_update_status = (\<lambda>i st e. (True, e)),
       bd_update_notes = (\<lambda>i n e. (notes_ok, e)),
       bd_close = (\<lambda>i r e. (True, e)),
       Date_now = (\<lambda>e. 1000 + e),
       Date_iso = (\<lambda>e. ''2025-01-01'') \<rparr>"

text \<open>
  Three hosts: one whose lookups print an array holding the issue (the shape that
  \<^verbatim>\<open>getOrCreateSessionIssue\<close> tests for), one whose lookups print the issue object
  itself, and one whose lookups throw.
\<close>

definition good_host :: "nat host" where
  "good_host = sim_host (\<lambda>i. Some (JArray [an_issue i])) (\<lambda>t. True) True"

definition object_host :: "nat host" where
  "object_host = sim_host (\<lambda>i. Some (JObject (an_issue i))) (\<lambda>t. True) True"

definition lost_host :: "nat host" where
  "lost_host = sim_host (\<lambda>i. None) (\<lambda>t. True) True"

text \<open>A host that cannot create an issue titled \<open>task B\<close>, and one whose notes updates throw.\<close>

definition flaky_host :: "nat host" where
  "flaky_host = sim_host (\<lambda>i. Some (JArray [an_issue i])) (\<lambda>t. t \<noteq> ''task B'') True"


text \<open>A mapping with one session, its epic \<open>bd-1\<close> and one todo \<open>A\<close> recorded as \<open>bd-2\<close>.\<close>

definition mapping_s1 :: TodoBeadsMapping where
  "mapping_s1 =
     \<lparr> sessions = [(''s1'', ''bd-1'')], todos = [(''s1'', [(''A'', ''bd-2'')])],
       lastSync = 1001 \<rparr>"

definition todo_of :: "string \<Rightarrow> todo_status \<Rightarrow> TodoItem" where
  "todo_of i st =
     \<lparr> todo_id = i, todo_content = ''task '' @ i, todo_status = st, todo_priority = ''high'' \<rparr>"

definition world_with :: "file_content option \<Rightarrow> nat world" where
  "world_with f = \<lparr> outside = 1, mapping_file = f, calls = [] \<rparr>"

section \<open>The translator\<close>

text \<open>
  C3. A pending or in-progress todo status, translated to the tracker status and read back
  from an issue carrying that status, is the same status, whatever the issue's notes are.
  A completed or cancelled status, translated to the tracker status (closed) with the
  engine's own closing reason in the issue's notes, is read back as the same status.
\<close>

theorem status_round_trip:
  "(todo_status (beadsIssueToTodo tid (i\<lparr>issue_status := STATUS_TO_BEADS pending\<rparr>)) = pending)
   \<and> (todo_status (beadsIssueToTodo tid (i\<lparr>issue_status := STATUS_TO_BEADS in_progress\<rparr>))
        = in_progress)
   \<and> STATUS_TO_BEADS completed = ''closed'' \<and> STATUS_TO_BEADS cancelled = ''closed''
   \<and> close_reason completed = ''Completed''
   \<and> close_reason cancelled = ''Cancelled in OpenCode''
   \<and> (todo_status (beadsIssueToTodo tid
         (i\<lparr>issue_status := STATUS_TO_BEADS completed,
            issue_notes := Some (close_reason completed)\<rparr>)) = completed)
   \<and> (todo_status (beadsIssueToTodo tid
         (i\<lparr>issue_status := STATUS_TO_BEADS cancelled,
            issue_notes := Some (close_reason cancelled)\<rparr>)) = cancelled)"
  by (simp add: beadsIssueToTodo_def close_reason_def)



section \<open>Effects of the gateway calls and of the two loops\<close>


lemma sh_show_effect:
  "sh_show h i w = (r, w') \<Longrightarrow>
     mapping_file w' = mapping_file w \<and> calls w' = calls w @ [(Show i, r \<noteq> None)]
     \<and> fst (bd_show h i (outside w)) = r"
  by (auto simp: sh_show_def split: prod.splits)

lemma sh_create_effect:
  "sh_create h title ty p parent d w = (r, w') \<Longrightarrow>
     mapping_file w' = mapping_file w
     \<and> calls w' = calls w @ [(Create title ty p parent d, r \<noteq> None)]
     \<and> fst (bd_create h title ty p parent d (outside w)) = r"
  by (auto simp: sh_create_def split: prod.splits)

lemma sh_update_status_effect:
  "sh_update_status h i st w = (r, w') \<Longrightarrow>
     mapping_file w' = mapping_file w \<and> calls w' = calls w @ [(UpdateStatus i st, r)]"
  by (auto simp: sh_update_status_def split: prod.splits)

lemma sh_update_notes_effect:
  "sh_update_notes h i n w = (r, w') \<Longrightarrow>
     mapping_file w' = mapping_file w \<and> calls w' = calls w @ [(UpdateNotes i n, r)]"
  by (auto simp: sh_update_notes_def split: prod.splits)

lemma sh_close_effect:
  "sh_close h i reason w = (r, w') \<Longrightarrow>
     mapping_file w' = mapping_file w \<and> calls w' = calls w @ [(Close i reason, r)]"
  by (auto simp: sh_close_def split: prod.splits)

lemma loadMapping_file_cong:
  "mapping_file w' = mapping_file w \<Longrightarrow> loadMapping w' = loadMapping w"
  by (simp add: loadMapping_def readFile_def)

lemma updateBeadsIssue_effect:
  "\<exists>c ok. mapping_file (updateBeadsIssue h b t w) = mapping_file w
     \<and> calls (updateBeadsIssue h b t w) = calls w @ [(c, ok)] \<and> \<not> is_create c
     \<and> (c = Close b (close_reason (todo_status t))
          \<or> c = UpdateStatus b (STATUS_TO_BEADS (todo_status t)))"
proof (cases "STATUS_TO_BEADS (todo_status t) = ''closed''")
  case True
  obtain r w' where "sh_close h b (close_reason (todo_status t)) w = (r, w')"
    by (cases "sh_close h b (close_reason (todo_status t)) w")
  with True show ?thesis
    using sh_close_effect by (fastforce simp: updateBeadsIssue_def)
next
  case False
  obtain r w' where "sh_update_status h b (STATUS_TO_BEADS (todo_status t)) w = (r, w')"
    by (cases "sh_update_status h b (STATUS_TO_BEADS (todo_status t)) w")
  with False show ?thesis
    using sh_update_status_effect by (fastforce simp: updateBeadsIssue_def)
qed

lemma createBeadsIssue_file:
  "createBeadsIssue h s t w = (r, w') \<Longrightarrow> mapping_file w' = mapping_file w"
  by (auto simp: createBeadsIssue_def Let_def split: prod.splits option.splits if_splits
      dest!: sh_create_effect sh_update_status_effect sh_close_effect)

lemma createBeadsIssue_created:
  "createBeadsIssue h s t w = (Inr n, w') \<Longrightarrow>
     \<exists>w1. sh_create h (todo_content t) ''task'' (priority_to_beads (todo_priority t)) (Some s)
            (''OpenCode todo ID: '' @ todo_id t) w = (Some n, w1)"
  by (auto simp: createBeadsIssue_def Let_def split: prod.splits option.splits if_splits)

lemma createBeadsIssue_nonempty:
  assumes "mints_nonempty h" and "createBeadsIssue h s t w = (Inr n, w')"
  shows "n \<noteq> []"
proof -
  from createBeadsIssue_created [OF assms(2)] obtain w1 where
    "sh_create h (todo_content t) ''task'' (priority_to_beads (todo_priority t)) (Some s)
            (''OpenCode todo ID: '' @ todo_id t) w = (Some n, w1)" ..
  then have "fst (bd_create h (todo_content t) ''task'' (priority_to_beads (todo_priority t))
            (Some s) (''OpenCode todo ID: '' @ todo_id t) (outside w)) = Some n"
    by (rule sh_create_effect [THEN conjunct2, THEN conjunct2])
  with assms(1) show ?thesis unfolding mints_nonempty_def by blast
qed

lemma createBeadsIssue_error:
  "createBeadsIssue h s t w = (Inl e, w') \<Longrightarrow> e = TodoIssueError (todo_id t)"
  by (auto simp: createBeadsIssue_def Let_def split: prod.splits option.splits if_splits)


lemma close_reason_cases: "close_reason st = ''Completed'' \<or> close_reason st = ''Cancelled in OpenCode''"
  by (simp add: close_reason_def)

lemma STATUS_TO_BEADS_cases:
  "STATUS_TO_BEADS st = ''closed'' \<or> STATUS_TO_BEADS st = ''open'' \<or> STATUS_TO_BEADS st = ''in_progress''"
  by (cases st) simp_all

lemma updateBeadsIssue_calls:
  "\<exists>c ok. calls (updateBeadsIssue h b t w) = calls w @ [(c, ok)] \<and> \<not> is_create c \<and> before_cleanup c"
  using updateBeadsIssue_effect [of h b t w] close_reason_cases [of "todo_status t"]
  by fastforce

lemma updateBeadsIssue_file: "mapping_file (updateBeadsIssue h b t w) = mapping_file w"
  using updateBeadsIssue_effect [of h b t w] by blast

lemma createBeadsIssue_calls:
  assumes "createBeadsIssue h s t w = (r, w')"
  shows "\<exists>cs. calls w' = calls w @ cs \<and> (\<forall>c\<in>set cs. before_cleanup (fst c))"
  using assms close_reason_cases [of "todo_status t"]
  by (auto simp: createBeadsIssue_def Let_def split: prod.splits option.splits if_splits
      dest!: sh_create_effect sh_update_status_effect sh_close_effect)

lemma sync_loop_Cons_cases:
  assumes "sync_loop h s (t # ts) tm seen w = (r, w')"
  obtains
    (update) "truthy (map_of tm (todo_id t))"
      "sync_loop h s ts tm (insert (todo_id t) seen)
         (updateBeadsIssue h (the (map_of tm (todo_id t))) t w) = (r, w')"
  | (failed) e where "\<not> truthy (map_of tm (todo_id t))"
      "createBeadsIssue h s t w = (Inl e, w')" "r = Inl e"
  | (created) n w1 where "\<not> truthy (map_of tm (todo_id t))"
      "createBeadsIssue h s t w = (Inr n, w1)"
      "sync_loop h s ts (AList.update (todo_id t) n tm) (insert (todo_id t) seen) w1 = (r, w')"
proof (cases "truthy (map_of tm (todo_id t))")
  case True
  with assms update show ?thesis by (simp add: Let_def)
next
  case False
  obtain r1 w1 where c: "createBeadsIssue h s t w = (r1, w1)"
    by (cases "createBeadsIssue h s t w")
  show ?thesis
  proof (cases r1)
    case (Inl e)
    with False c assms failed show ?thesis by (simp add: Let_def)
  next
    case (Inr n)
    with False c assms created show ?thesis by (simp add: Let_def)
  qed
qed

lemma sync_loop_file:
  "sync_loop h s ts tm seen w = (r, w') \<Longrightarrow> mapping_file w' = mapping_file w"
proof (induction ts arbitrary: tm seen w)
  case Nil
  then show ?case by simp
next
  case (Cons t ts)
  from Cons.prems show ?case
  proof (cases rule: sync_loop_Cons_cases)
    case update
    from Cons.IH [OF update(2)] show ?thesis by (simp add: updateBeadsIssue_file)
  next
    case (failed e)
    then show ?thesis using createBeadsIssue_file by blast
  next
    case (created n w1)
    from Cons.IH [OF created(3)] createBeadsIssue_file [OF created(2)] show ?thesis by simp
  qed
qed

lemma sync_loop_calls:
  "sync_loop h s ts tm seen w = (r, w') \<Longrightarrow>
     \<exists>cs. calls w' = calls w @ cs \<and> (\<forall>c\<in>set cs. before_cleanup (fst c))"
proof (induction ts arbitrary: tm seen w)
  case Nil
  then show ?case by simp
next
  case (Cons t ts)
  from Cons.prems show ?case
  proof (cases rule: sync_loop_Cons_cases)
    case update
    from Cons.IH [OF update(2)] obtain cs where
      "calls w' = calls (updateBeadsIssue h (the (map_of tm (todo_id t))) t w) @ cs"
      "\<forall>c\<in>set cs. before_cleanup (fst c)" by blast
    moreover obtain c ok where
      "calls (updateBeadsIssue h (the (map_of tm (todo_id t))) t w) = calls w @ [(c, ok)]"
      "before_cleanup c"
      using updateBeadsIssue_calls by blast
    ultimately have "calls w' = calls w @ ((c, ok) # cs) \<and>
        (\<forall>c\<in>set ((c, ok) # cs). before_cleanup (fst c))" by simp
    then show ?thesis by blast
  next
    case (failed e)
    from createBeadsIssue_calls [OF failed(2)] show ?thesis .
  next
    case (created n w1)
    from createBeadsIssue_calls [OF created(2)] obtain cs1 where
      cs1: "calls w1 = calls w @ cs1" "\<forall>c\<in>set cs1. before_cleanup (fst c)" by blast
    from Cons.IH [OF created(3)] obtain cs where
      "calls w' = calls w1 @ cs" "\<forall>c\<in>set cs. before_cleanup (fst c)" by blast
    with cs1 have "calls w' = calls w @ (cs1 @ cs) \<and>
      (\<forall>c\<in>set (cs1 @ cs). before_cleanup (fst c))" by auto
    then show ?thesis by blast
  qed
qed

lemma sync_loop_error:
  "sync_loop h s ts tm seen w = (Inl e, w') \<Longrightarrow> \<exists>t\<in>set ts. e = TodoIssueError (todo_id t)"
proof (induction ts arbitrary: tm seen w)
  case Nil
  then show ?case by simp
next
  case (Cons t ts)
  from Cons.prems show ?case
  proof (cases rule: sync_loop_Cons_cases)
    case update
    from Cons.IH [OF update(2)] show ?thesis by auto
  next
    case (failed e1)
    then show ?thesis using createBeadsIssue_error by fastforce
  next
    case (created n w1)
    from Cons.IH [OF created(3)] show ?thesis by auto
  qed
qed

lemma sync_loop_seen:
  "sync_loop h s ts tm seen w = (Inr (tm', seen'), w') \<Longrightarrow> seen' = seen \<union> todo_id ` set ts"
proof (induction ts arbitrary: tm seen w)
  case Nil
  then show ?case by simp
next
  case (Cons t ts)
  from Cons.prems show ?case
  proof (cases rule: sync_loop_Cons_cases)
    case update
    from Cons.IH [OF update(2)] show ?thesis by auto
  next
    case (failed e1)
    then show ?thesis by simp
  next
    case (created n w1)
    from Cons.IH [OF created(3)] show ?thesis by auto
  qed
qed

lemma truthy_update:
  "n \<noteq> [] \<Longrightarrow> truthy (map_of tm k) \<Longrightarrow> truthy (map_of (AList.update k' n tm) k)"
  by (simp add: AList.update_conv' truthy_def)

lemma sync_loop_truthy_mono:
  "mints_nonempty h \<Longrightarrow> sync_loop h s ts tm seen w = (Inr (tm', seen'), w') \<Longrightarrow>
     truthy (map_of tm k) \<Longrightarrow> truthy (map_of tm' k)"
proof (induction ts arbitrary: tm seen w)
  case Nil
  then show ?case by simp
next
  case (Cons t ts)
  from Cons.prems(2) show ?case
  proof (cases rule: sync_loop_Cons_cases)
    case update
    from Cons.IH [OF Cons.prems(1) update(2) Cons.prems(3)] show ?thesis .
  next
    case (failed e1)
    then show ?thesis by simp
  next
    case (created n w1)
    have "n \<noteq> []" using createBeadsIssue_nonempty [OF Cons.prems(1) created(2)] .
    then have "truthy (map_of (AList.update (todo_id t) n tm) k)"
      using Cons.prems(3) by (rule truthy_update)
    from Cons.IH [OF Cons.prems(1) created(3) this] show ?thesis .
  qed
qed

lemma sync_loop_truthy:
  "mints_nonempty h \<Longrightarrow> sync_loop h s ts tm seen w = (Inr (tm', seen'), w') \<Longrightarrow>
     \<forall>t\<in>set ts. truthy (map_of tm' (todo_id t))"
proof (induction ts arbitrary: tm seen w)
  case Nil
  then show ?case by simp
next
  case (Cons t ts)
  from Cons.prems(2) show ?case
  proof (cases rule: sync_loop_Cons_cases)
    case update
    from Cons.IH [OF Cons.prems(1) update(2)]
      sync_loop_truthy_mono [OF Cons.prems(1) update(2) update(1)]
    show ?thesis by simp
  next
    case (failed e1)
    then show ?thesis by simp
  next
    case (created n w1)
    have "n \<noteq> []" using createBeadsIssue_nonempty [OF Cons.prems(1) created(2)] .
    then have "truthy (map_of (AList.update (todo_id t) n tm) (todo_id t))"
      by (simp add: AList.update_conv' truthy_def)
    from Cons.IH [OF Cons.prems(1) created(3)]
      sync_loop_truthy_mono [OF Cons.prems(1) created(3) this]
    show ?thesis by simp
  qed
qed

lemma update_keeps_entry:
  "(k, b) \<in> set tm \<Longrightarrow> k \<noteq> k' \<Longrightarrow> (k, b) \<in> set (AList.update k' v tm)"
  by (induction tm) auto

lemma sync_loop_keeps:
  "sync_loop h s ts tm seen w = (Inr (tm', seen'), w') \<Longrightarrow>
     (k, b) \<in> set tm \<Longrightarrow> k \<notin> todo_id ` set ts \<Longrightarrow> (k, b) \<in> set tm'"
proof (induction ts arbitrary: tm seen w)
  case Nil
  then show ?case by simp
next
  case (Cons t ts)
  from Cons.prems(3) have k: "k \<noteq> todo_id t" "k \<notin> todo_id ` set ts" by auto
  from Cons.prems(1) show ?case
  proof (cases rule: sync_loop_Cons_cases)
    case update
    from Cons.IH [OF update(2) Cons.prems(2) k(2)] show ?thesis .
  next
    case (failed e1)
    then show ?thesis by simp
  next
    case (created n w1)
    have "(k, b) \<in> set (AList.update (todo_id t) n tm)"
      using Cons.prems(2) k(1) by (rule update_keeps_entry)
    from Cons.IH [OF created(3) this k(2)] show ?thesis .
  qed
qed

lemma sync_loop_unchanged:
  "\<forall>t\<in>set ts. truthy (map_of tm (todo_id t)) \<Longrightarrow>
     \<exists>w' cs. sync_loop h s ts tm seen w = (Inr (tm, seen \<union> todo_id ` set ts), w')
       \<and> mapping_file w' = mapping_file w
       \<and> calls w' = calls w @ cs \<and> (\<forall>c\<in>set cs. \<not> is_create (fst c))"
proof (induction ts arbitrary: seen w)
  case Nil
  then show ?case by simp
next
  case (Cons t ts)
  let ?w1 = "updateBeadsIssue h (the (map_of tm (todo_id t))) t w"
  from Cons.prems have tr: "truthy (map_of tm (todo_id t))"
    and rest: "\<forall>t\<in>set ts. truthy (map_of tm (todo_id t))" by simp_all
  from Cons.IH [OF rest, of "insert (todo_id t) seen" ?w1] obtain w' cs where
    l: "sync_loop h s ts tm (insert (todo_id t) seen) ?w1
          = (Inr (tm, insert (todo_id t) seen \<union> todo_id ` set ts), w')"
    and f: "mapping_file w' = mapping_file ?w1"
    and c: "calls w' = calls ?w1 @ cs" "\<forall>c\<in>set cs. \<not> is_create (fst c)" by blast
  obtain c1 ok where c1: "calls ?w1 = calls w @ [(c1, ok)]" "\<not> is_create c1"
    using updateBeadsIssue_calls by blast
  have "sync_loop h s (t # ts) tm seen w = (Inr (tm, seen \<union> todo_id ` set (t # ts)), w')"
    using tr l by (simp add: Let_def)
  moreover have "mapping_file w' = mapping_file w" using f by (simp add: updateBeadsIssue_file)
  moreover have "calls w' = calls w @ ((c1, ok) # cs)" using c(1) c1(1) by simp
  moreover have "\<forall>c\<in>set ((c1, ok) # cs). \<not> is_create (fst c)" using c(2) c1(2) by simp
  ultimately show ?case by blast
qed


lemma delete_loop_file:
  "mapping_file (snd (delete_loop h seen es tm w)) = mapping_file w"
proof (induction es arbitrary: tm w)
  case Nil
  then show ?case by simp
next
  case (Cons p es)
  obtain k b where p: "p = (k, b)" by (cases p)
  obtain ok w1 where c: "sh_close h b ''Todo removed from OpenCode'' w = (ok, w1)"
    by (cases "sh_close h b ''Todo removed from OpenCode'' w")
  from sh_close_effect [OF c] have "mapping_file w1 = mapping_file w" by simp
  with Cons.IH [of "AList.delete k tm" w1] Cons.IH [of tm w] p c show ?case by simp
qed

lemma delete_loop_result:
  "fst (delete_loop h seen es tm w)
     = filter (\<lambda>p. \<not> (fst p \<in> fst ` set es \<and> fst p \<notin> seen)) tm"
proof (induction es arbitrary: tm w)
  case Nil
  then show ?case by simp
next
  case (Cons p es)
  obtain k b where p: "p = (k, b)" by (cases p)
  show ?case
  proof (cases "k \<in> seen")
    case True
    have "filter (\<lambda>p. \<not> (fst p \<in> fst ` set es \<and> fst p \<notin> seen)) tm
        = filter (\<lambda>p. \<not> (fst p \<in> fst ` set ((k, b) # es) \<and> fst p \<notin> seen)) tm"
      using True by (intro filter_cong) auto
    with True p Cons.IH [of tm w] show ?thesis by simp
  next
    case False
    have "filter (\<lambda>p. \<not> (fst p \<in> fst ` set es \<and> fst p \<notin> seen)) (AList.delete k tm)
        = filter (\<lambda>p. \<not> (fst p \<in> fst ` set ((k, b) # es) \<and> fst p \<notin> seen)) tm"
      using False unfolding AList.delete_eq filter_filter
      by (intro filter_cong) auto
    with False p Cons.IH [of "AList.delete k tm"] show ?thesis by simp
  qed
qed

lemma delete_loop_all_seen:
  "fst ` set es \<subseteq> seen \<Longrightarrow> delete_loop h seen es tm w = (tm, w)"
  by (induction es arbitrary: tm w) auto

lemma delete_loop_calls:
  "\<exists>cs. calls (snd (delete_loop h seen es tm w)) = calls w @ cs
     \<and> (\<forall>c\<in>set cs. \<exists>b. fst c = Close b ''Todo removed from OpenCode'')
     \<and> (\<forall>(k, b)\<in>set es. k \<notin> seen \<longrightarrow> (\<exists>ok. (Close b ''Todo removed from OpenCode'', ok) \<in> set cs))"
proof (induction es arbitrary: tm w)
  case Nil
  then show ?case by simp
next
  case (Cons p es)
  obtain k b where p: "p = (k, b)" by (cases p)
  show ?case
  proof (cases "k \<in> seen")
    case True
    with p Cons.IH [of tm w] show ?thesis by auto
  next
    case False
    obtain ok w1 where c: "sh_close h b ''Todo removed from OpenCode'' w = (ok, w1)"
      by (cases "sh_close h b ''Todo removed from OpenCode'' w")
    from sh_close_effect [OF c] have w1: "calls w1 = calls w @ [(Close b ''Todo removed from OpenCode'', ok)]"
      by simp
    from Cons.IH [of "AList.delete k tm" w1] obtain cs where
      cs: "calls (snd (delete_loop h seen es (AList.delete k tm) w1)) = calls w1 @ cs"
        "\<forall>c\<in>set cs. \<exists>b. fst c = Close b ''Todo removed from OpenCode''"
        "\<forall>(k, b)\<in>set es. k \<notin> seen \<longrightarrow> (\<exists>ok. (Close b ''Todo removed from OpenCode'', ok) \<in> set cs)"
      by blast
    let ?cs = "(Close b ''Todo removed from OpenCode'', ok) # cs"
    have "calls (snd (delete_loop h seen (p # es) tm w)) = calls w @ ?cs"
      using False p c cs(1) w1 by simp
    moreover have "\<forall>c\<in>set ?cs. \<exists>b. fst c = Close b ''Todo removed from OpenCode''"
      using cs(2) by simp
    moreover have "\<forall>(k, b)\<in>set (p # es). k \<notin> seen \<longrightarrow>
        (\<exists>ok. (Close b ''Todo removed from OpenCode'', ok) \<in> set ?cs)"
      using cs(3) p by auto
    ultimately show ?thesis by blast
  qed
qed

lemma sh_close_snd:
  "mapping_file (snd (sh_close h i reason w)) = mapping_file w"
  "\<exists>ok. calls (snd (sh_close h i reason w)) = calls w @ [(Close i reason, ok)]"
  by (simp_all add: sh_close_def split: prod.splits)

lemma closeSessionIssue_file:
  "mapping_file (closeSessionIssue h e ts w) = mapping_file w"
  by (auto simp: closeSessionIssue_def Let_def sh_close_snd(1) split: prod.splits
      dest!: sh_update_notes_effect)

lemma closeSessionIssue_calls:
  "calls (closeSessionIssue h e ts w) = calls w @ [(UpdateNotes e (summary_of ts), False)]
   \<or> (\<exists>ok. calls (closeSessionIssue h e ts w)
         = calls w @ [(UpdateNotes e (summary_of ts), True), (Close e (summary_of ts), ok)])"
proof -
  obtain ok w1 where u: "sh_update_notes h e (summary_of ts) w = (ok, w1)"
    by (cases "sh_update_notes h e (summary_of ts) w")
  from sh_update_notes_effect [OF u]
  have w1: "calls w1 = calls w @ [(UpdateNotes e (summary_of ts), ok)]" by simp
  show ?thesis
  proof (cases ok)
    case True
    obtain ok2 where "calls (snd (sh_close h e (summary_of ts) w1))
        = calls w1 @ [(Close e (summary_of ts), ok2)]"
      using sh_close_snd(2) by blast
    with True u w1 show ?thesis by (simp add: closeSessionIssue_def)
  next
    case False
    with u w1 show ?thesis by (simp add: closeSessionIssue_def)
  qed
qed

section \<open>Session issue, mapping file and the shape of a pass\<close>

lemma loadMapping_total: "\<exists>m. loadMapping w = Inr m"
  by (simp add: loadMapping_def split: sum.splits)

lemma saveMapping_effect:
  "saveMapping h m w = (m', w') \<Longrightarrow>
     m' = m\<lparr>lastSync := Date_now h (outside w)\<rparr> \<and> mapping_file w' = Some (Document m')
     \<and> calls w' = calls w \<and> outside w' = outside w"
  by (auto simp: saveMapping_def Let_def)

lemma createSessionIssue_cases:
  obtains
    (failed) w1 ts where
      "createSessionIssue h sid m w = (Inl SessionIssueError, w1)"
      "mapping_file w1 = mapping_file w"
      "calls w1 = calls w @ [(Create (''OpenCode Session '' @ take 8 sid @ '' ('' @ ts @ '')'')
          ''epic'' 2 None (''Tracks todos for OpenCode session '' @ sid), False)]"
  | (created) n w1 ts t where
      "createSessionIssue h sid m w
         = (Inr (n, m\<lparr>sessions := AList.update sid n (sessions m),
                      todos := AList.update sid [] (todos m), lastSync := t\<rparr>), w1)"
      "mapping_file w1 = Some (Document (m\<lparr>sessions := AList.update sid n (sessions m),
                      todos := AList.update sid [] (todos m), lastSync := t\<rparr>))"
      "calls w1 = calls w @ [(Create (''OpenCode Session '' @ take 8 sid @ '' ('' @ ts @ '')'')
          ''epic'' 2 None (''Tracks todos for OpenCode session '' @ sid), True)]"
      "fst (bd_create h (''OpenCode Session '' @ take 8 sid @ '' ('' @ ts @ '')'')
          ''epic'' 2 None (''Tracks todos for OpenCode session '' @ sid) (outside w)) = Some n"
proof -
  let ?title = "''OpenCode Session '' @ take 8 sid @ '' ('' @ Date_iso h (outside w) @ '')''"
  let ?d = "''Tracks todos for OpenCode session '' @ sid"
  obtain r w1 where c: "sh_create h ?title ''epic'' 2 None ?d w = (r, w1)"
    by (cases "sh_create h ?title ''epic'' 2 None ?d w")
  note eff = sh_create_effect [OF c]
  show ?thesis
  proof (cases r)
    case None
    with c have "createSessionIssue h sid m w = (Inl SessionIssueError, w1)"
      by (simp add: createSessionIssue_def)
    with eff None failed show ?thesis by simp
  next
    case (Some n)
    let ?m = "m\<lparr>sessions := AList.update sid n (sessions m),
                todos := AList.update sid [] (todos m), lastSync := Date_now h (outside w1)\<rparr>"
    from Some c have "createSessionIssue h sid m w
        = (Inr (n, ?m), w1\<lparr>mapping_file := Some (Document ?m)\<rparr>)"
      by (simp add: createSessionIssue_def saveMapping_def Let_def)
    moreover have "mapping_file (w1\<lparr>mapping_file := Some (Document ?m)\<rparr>) = Some (Document ?m)"
      by simp
    moreover have "calls (w1\<lparr>mapping_file := Some (Document ?m)\<rparr>)
        = calls w @ [(Create ?title ''epic'' 2 None ?d, True)]"
      using eff Some by simp
    moreover have "fst (bd_create h ?title ''epic'' 2 None ?d (outside w)) = Some n"
      using eff Some by simp
    ultimately show ?thesis using created by blast
  qed
qed

lemma getOrCreateSessionIssue_kept:
  assumes "map_of (sessions m) sid = Some e" "e \<noteq> []" "found (fst (bd_show h e (outside w)))"
  shows "\<exists>w1. getOrCreateSessionIssue h sid m w = (Inr (e, m), w1)
           \<and> mapping_file w1 = mapping_file w \<and> calls w1 = calls w @ [(Show e, True)]"
proof -
  obtain r w1 where s: "sh_show h e w = (r, w1)" by (cases "sh_show h e w")
  note eff = sh_show_effect [OF s]
  with assms(3) have f: "found r" by simp
  then have "r \<noteq> None" by (cases r) (auto simp: found_def)
  with assms s f eff show ?thesis by (simp add: getOrCreateSessionIssue_def)
qed

text \<open>Where the creation path starts: in the world as given, or after a lookup that found nothing.\<close>

lemma getOrCreateSessionIssue_lost:
  assumes "\<not> (\<exists>e. map_of (sessions m) sid = Some e \<and> e \<noteq> []
               \<and> found (fst (bd_show h e (outside w))))"
  shows "\<exists>w0. getOrCreateSessionIssue h sid m w = createSessionIssue h sid m w0
           \<and> mapping_file w0 = mapping_file w
           \<and> (calls w0 = calls w \<or> (\<exists>e ok. calls w0 = calls w @ [(Show e, ok)]))"
proof (cases "map_of (sessions m) sid")
  case None
  then show ?thesis by (auto simp: getOrCreateSessionIssue_def)
next
  case (Some e)
  show ?thesis
  proof (cases "e = []")
    case True
    with Some show ?thesis by (auto simp: getOrCreateSessionIssue_def)
  next
    case False
    obtain r w1 where s: "sh_show h e w = (r, w1)" by (cases "sh_show h e w")
    note eff = sh_show_effect [OF s]
    with assms Some False have "\<not> found r" by auto
    with Some False s have "getOrCreateSessionIssue h sid m w = createSessionIssue h sid m w1"
      by (simp add: getOrCreateSessionIssue_def)
    with eff show ?thesis by blast
  qed
qed


lemma getOrCreateSessionIssue_error:
  assumes "getOrCreateSessionIssue h sid m w = (Inl e, w')"
  shows "e = SessionIssueError \<and> mapping_file w' = mapping_file w"
proof (cases "\<exists>e. map_of (sessions m) sid = Some e \<and> e \<noteq> []
               \<and> found (fst (bd_show h e (outside w)))")
  case True
  then show ?thesis using getOrCreateSessionIssue_kept [of m sid _ h w] assms by auto
next
  case False
  from getOrCreateSessionIssue_lost [OF False] obtain w0 where
    w0: "getOrCreateSessionIssue h sid m w = createSessionIssue h sid m w0"
      "mapping_file w0 = mapping_file w" by blast
  show ?thesis
    by (rule createSessionIssue_cases [of h sid m w0]) (use assms w0 in auto)
qed

lemma todos_entry_simps:
  "the (map_of (todos (if map_of (todos m1) sid = None
        then m1\<lparr>todos := AList.update sid [] (todos m1)\<rparr> else m1)) sid) = session_todos m1 sid"
  "(if map_of (todos m1) sid = None
        then m1\<lparr>todos := AList.update sid [] (todos m1)\<rparr> else m1)
     \<lparr>todos := AList.update sid tm (todos (if map_of (todos m1) sid = None
        then m1\<lparr>todos := AList.update sid [] (todos m1)\<rparr> else m1))\<rparr>
   = m1\<lparr>todos := AList.update sid tm (todos m1)\<rparr>"
  by (auto simp: session_todos_def AList.update_conv')

lemma syncTodosToBeads_cases:
  assumes "syncTodosToBeads h sid ts w = (r, w')"
  obtains
    (epic_failed) m0 e where
      "loadMapping w = Inr m0" "getOrCreateSessionIssue h sid m0 w = (Inl e, w')" "r = Inl e"
  | (todo_failed) m0 epic m1 w1 e where
      "loadMapping w = Inr m0" "getOrCreateSessionIssue h sid m0 w = (Inr (epic, m1), w1)"
      "sync_loop h epic ts (session_todos m1 sid) {} w1 = (Inl e, w')" "r = Inl e"
  | (finished) m0 epic m1 w1 tm1 seen w2 tm2 w3 where
      "loadMapping w = Inr m0" "getOrCreateSessionIssue h sid m0 w = (Inr (epic, m1), w1)"
      "sync_loop h epic ts (session_todos m1 sid) {} w1 = (Inr (tm1, seen), w2)"
      "delete_loop h seen tm1 tm1 w2 = (tm2, w3)"
      "w' = snd (saveMapping h (m1\<lparr>todos := AList.update sid tm2 (todos m1)\<rparr>)
                  (if allComplete ts \<and> ts \<noteq> [] then closeSessionIssue h epic ts w3 else w3))"
      "r = Inr ()"
proof -
  obtain m0 where m0: "loadMapping w = Inr m0" using loadMapping_total by blast
  obtain r1 w1 where g: "getOrCreateSessionIssue h sid m0 w = (r1, w1)"
    by (cases "getOrCreateSessionIssue h sid m0 w")
  show ?thesis
  proof (cases r1)
    case (Inl e)
    with m0 g assms have "w' = w1" "r = Inl e" by (simp_all add: syncTodosToBeads_def)
    with m0 g Inl epic_failed show ?thesis by simp
  next
    case (Inr p)
    obtain epic m1 where p: "p = (epic, m1)" by (cases p)
    obtain r2 w2 where l: "sync_loop h epic ts (session_todos m1 sid) {} w1 = (r2, w2)"
      by (cases "sync_loop h epic ts (session_todos m1 sid) {} w1")
    show ?thesis
    proof (cases r2)
      case (Inl e)
      with m0 g Inr p l assms have "w' = w2" "r = Inl e"
        by (simp_all add: syncTodosToBeads_def Let_def todos_entry_simps del: sync_loop.simps)
      with m0 g Inr p l Inl todo_failed show ?thesis by simp
    next
      case r2: (Inr q)
      obtain tm1 seen where q: "q = (tm1, seen)" by (cases q)
      obtain tm2 w3 where d: "delete_loop h seen tm1 tm1 w2 = (tm2, w3)"
        by (cases "delete_loop h seen tm1 tm1 w2")
      from m0 g Inr p l r2 q d assms
      have "w' = snd (saveMapping h (m1\<lparr>todos := AList.update sid tm2 (todos m1)\<rparr>)
                  (if allComplete ts \<and> ts \<noteq> [] then closeSessionIssue h epic ts w3 else w3))"
        and "r = Inr ()"
        by (simp_all add: syncTodosToBeads_def Let_def todos_entry_simps
            del: sync_loop.simps delete_loop.simps)
      with m0 g Inr p l r2 q d finished show ?thesis by simp
    qed
  qed
qed





section \<open>The session issue manager\<close>




section \<open>The recovery reader\<close>

lemma read_loop_Cons_cases:
  obtains
    (emit) i w1 where "sh_show h b w = (Some (JObject i), w1)" "issue_id i \<noteq> []"
      "read_loop h ((k, b) # es) w
         = (beadsIssueToTodo k i # fst (read_loop h es w1), snd (read_loop h es w1))"
  | (skip) r w1 where "sh_show h b w = (r, w1)"
      "read_loop h ((k, b) # es) w = read_loop h es w1"
proof -
  obtain r w1 where s: "sh_show h b w = (r, w1)" by (cases "sh_show h b w")
  show ?thesis
  proof (cases r)
    case None
    with s have "read_loop h ((k, b) # es) w = read_loop h es w1" by simp
    with s skip show ?thesis by blast
  next
    case (Some j)
    show ?thesis
    proof (cases j)
      case JNull
      with s Some have "read_loop h ((k, b) # es) w = read_loop h es w1" by simp
      with s skip show ?thesis by blast
    next
      case (JArray xs)
      with s Some have "read_loop h ((k, b) # es) w = read_loop h es w1" by simp
      with s skip show ?thesis by blast
    next
      case (JObject i)
      show ?thesis
      proof (cases "issue_id i = []")
        case True
        with s Some JObject have "read_loop h ((k, b) # es) w = read_loop h es w1" by simp
        with s skip show ?thesis by blast
      next
        case False
        with s Some JObject have "read_loop h ((k, b) # es) w
         = (beadsIssueToTodo k i # fst (read_loop h es w1), snd (read_loop h es w1))"
          by (simp add: split_beta)
        with s Some JObject False emit show ?thesis by blast
      qed
    qed
  qed
qed


lemma read_loop_file: "mapping_file (snd (read_loop h es w)) = mapping_file w"
proof (induction es arbitrary: w)
  case Nil
  then show ?case by simp
next
  case (Cons p es)
  obtain k b where p: "p = (k, b)" by (cases p)
  show ?case unfolding p
  proof (rule read_loop_Cons_cases [of h b w k es])
    fix i w1
    assume s: "sh_show h b w = (Some (JObject i), w1)"
      and l: "read_loop h ((k, b) # es) w
         = (beadsIssueToTodo k i # fst (read_loop h es w1), snd (read_loop h es w1))"
    from sh_show_effect [OF s] Cons.IH [of w1] l
    show "mapping_file (snd (read_loop h ((k, b) # es) w)) = mapping_file w" by simp
  next
    fix r w1
    assume s: "sh_show h b w = (r, w1)"
      and l: "read_loop h ((k, b) # es) w = read_loop h es w1"
    from sh_show_effect [OF s] Cons.IH [of w1] l
    show "mapping_file (snd (read_loop h ((k, b) # es) w)) = mapping_file w" by simp
  qed
qed

text \<open>
  What the reading loop pushes: for a recorded pair, the translation of an issue object
  that the lookup of the pair's tracker id printed, under the pair's todo id.
\<close>

lemma read_loop_emits:
  "t \<in> set (fst (read_loop h es w)) \<Longrightarrow>
     \<exists>k b i e. (k, b) \<in> set es \<and> fst (bd_show h b e) = Some (JObject i) \<and> issue_id i \<noteq> []
        \<and> t = beadsIssueToTodo k i"
proof (induction es arbitrary: w)
  case Nil
  then show ?case by simp
next
  case (Cons p es)
  obtain k b where p: "p = (k, b)" by (cases p)
  show ?case
  proof (rule read_loop_Cons_cases [of h b w k es])
    fix i w1
    assume s: "sh_show h b w = (Some (JObject i), w1)" and i: "issue_id i \<noteq> []"
      and l: "read_loop h ((k, b) # es) w
         = (beadsIssueToTodo k i # fst (read_loop h es w1), snd (read_loop h es w1))"
    from sh_show_effect [OF s] have r: "fst (bd_show h b (outside w)) = Some (JObject i)" by simp
    from Cons.prems p l have "t = beadsIssueToTodo k i \<or> t \<in> set (fst (read_loop h es w1))"
      by simp
    then show ?thesis
    proof
      assume "t = beadsIssueToTodo k i"
      with i r p show ?thesis by fastforce
    next
      assume "t \<in> set (fst (read_loop h es w1))"
      from Cons.IH [OF this] show ?thesis by fastforce
    qed
  next
    fix r w1
    assume "read_loop h ((k, b) # es) w = read_loop h es w1"
    with Cons.prems p have "t \<in> set (fst (read_loop h es w1))" by simp
    from Cons.IH [OF this] show ?thesis by fastforce
  qed
qed

text \<open>A tracker whose lookups never print a bare issue object gives the reader nothing.\<close>

lemma read_loop_no_object:
  assumes "\<And>b e i. fst (bd_show h b e) \<noteq> Some (JObject i)"
  shows "fst (read_loop h es w) = []"
proof (rule ccontr)
  assume "fst (read_loop h es w) \<noteq> []"
  then obtain t where "t \<in> set (fst (read_loop h es w))" by (cases "fst (read_loop h es w)") auto
  from read_loop_emits [OF this] assms show False by blast
qed

text \<open>
  The two readers of a lookup's reply, on the same mapping. When the tracker prints the
  bare issue object, the reader of the todos accepts it and answers todo \<open>A\<close> with the
  issue's title, status and priority translated back, but the session issue manager does
  not count the epic as found; when the tracker prints an array, it is the other way
  round.
\<close>

lemma lookup_reply_shapes:
  "readTodosFromBeads object_host ''s1'' (world_with (Some (Document mapping_s1)))
     = (Inr [\<lparr>todo_id = ''A'', todo_content = ''title of bd-2'', todo_status = pending,
               todo_priority = ''medium''\<rparr>],
        \<lparr>outside = 1, mapping_file = Some (Document mapping_s1),
         calls = [(Show ''bd-2'', True)]\<rparr>)
   \<and> \<not> epic_found object_host ''s1'' (world_with (Some (Document mapping_s1)))
   \<and> epic_found good_host ''s1'' (world_with (Some (Document mapping_s1)))
   \<and> fst (readTodosFromBeads good_host ''s1'' (world_with (Some (Document mapping_s1)))) = Inr []"
  by code_simp

text \<open>
  C4, at a concrete input. The mapping records epic \<open>bd-1\<close> and todo \<open>A\<close> as issue
  \<open>bd-2\<close>; the tracker prints, for a lookup, an array holding the issue, which is the
  shape \<^verbatim>\<open>getOrCreateSessionIssue\<close> counts as found. The reader makes the lookup, gets
  that reply, and returns no todo.
\<close>

theorem readTodosFromBeads_skips_array_reply:
  "found (fst (bd_show good_host ''bd-2'' 1))
   \<and> fst (bd_show good_host ''bd-2'' 1) = Some (JArray [an_issue ''bd-2''])
   \<and> readTodosFromBeads good_host ''s1'' (world_with (Some (Document mapping_s1)))
       = (Inr [], \<lparr>outside = 1, mapping_file = Some (Document mapping_s1),
                   calls = [(Show ''bd-2'', True)]\<rparr>)"
  by code_simp

text \<open>
  C10. The mapping records an epic for the session and the lookup of that epic throws or
  finds no issue. Then, when the function returns an id, it has made the lookup and one
  creation and nothing else (no close), the mapping it returns has the empty todo map for
  the session, whatever was recorded there before, the mapping file holds that mapping,
  and reading the session's todos back right away gives none, without any lookup.
\<close>

theorem lost_epic_discards_todos:
  assumes "map_of (sessions m) sid = Some e" and "e \<noteq> []"
    and "\<not> found (fst (bd_show h e (outside w)))"
    and "getOrCreateSessionIssue h sid m w = (Inr (n, m'), w')"
  shows "map_of (todos m') sid = Some []
     \<and> mapping_file w' = Some (Document m')
     \<and> (\<exists>ok title. calls w' = calls w
            @ [(Show e, ok),
               (Create title ''epic'' 2 None (''Tracks todos for OpenCode session '' @ sid), True)])
     \<and> readTodosFromBeads h sid w' = (Inr [], w')"
proof -
  obtain r w1 where s: "sh_show h e w = (r, w1)" by (cases "sh_show h e w")
  note eff = sh_show_effect [OF s]
  with assms(3) have "\<not> found r" by simp
  with assms(1,2) s have g: "getOrCreateSessionIssue h sid m w = createSessionIssue h sid m w1"
    by (simp add: getOrCreateSessionIssue_def)
  show ?thesis
  proof (rule createSessionIssue_cases [of h sid m w1])
    fix w2 ts
    assume "createSessionIssue h sid m w1 = (Inl SessionIssueError, w2)"
    with g assms(4) show ?thesis by simp
  next
    fix n2 w2 ts t
    let ?m = "m\<lparr>sessions := AList.update sid n2 (sessions m),
                todos := AList.update sid [] (todos m), lastSync := t\<rparr>"
    assume c: "createSessionIssue h sid m w1 = (Inr (n2, ?m), w2)"
      and f: "mapping_file w2 = Some (Document ?m)"
      and l: "calls w2 = calls w1 @ [(Create (''OpenCode Session '' @ take 8 sid @ '' ('' @ ts @ '')'')
          ''epic'' 2 None (''Tracks todos for OpenCode session '' @ sid), True)]"
    from c g assms(4) have eq: "n = n2" "m' = ?m" "w' = w2" by simp_all
    have t: "map_of (todos m') sid = Some []" unfolding eq by (simp add: AList.update_conv')
    have ld: "loadMapping w' = Inr m'"
      using f eq by (simp add: loadMapping_def readFile_def JSON_parse_def)
    have rd: "readTodosFromBeads h sid w' = (Inr [], w')"
      using ld t by (simp add: readTodosFromBeads_def)
    from t f l eff rd eq show ?thesis by simp
  qed
qed

theorem lost_epic_discards_todos_witness:
  "map_of (sessions mapping_s1) ''s1'' = Some ''bd-1''
   \<and> map_of (todos mapping_s1) ''s1'' = Some [(''A'', ''bd-2'')]
   \<and> \<not> found (fst (bd_show lost_host ''bd-1'' (outside (world_with (Some (Document mapping_s1))))))
   \<and> fst (getOrCreateSessionIssue lost_host ''s1'' mapping_s1
            (world_with (Some (Document mapping_s1))))
       = Inr (''bd-1'', \<lparr>sessions = [(''s1'', ''bd-1'')], todos = [(''s1'', [])], lastSync = 1002\<rparr>)
   \<and> fst (readTodosFromBeads lost_host ''s1''
        (snd (getOrCreateSessionIssue lost_host ''s1'' mapping_s1
            (world_with (Some (Document mapping_s1)))))) = Inr []"
proof -
  let ?w = "world_with (Some (Document mapping_s1))"
  let ?m = "\<lparr>sessions = [(''s1'', ''bd-1'')], todos = [(''s1'', [])], lastSync = 1002\<rparr>"
  let ?w' = "\<lparr>outside = 2, mapping_file = Some (Document ?m),
       calls = [(Show ''bd-1'', False),
                (Create ''OpenCode Session s1 (2025-01-01)'' ''epic'' 2 None
                   ''Tracks todos for OpenCode session s1'', True)]\<rparr>"
  have h1: "map_of (sessions mapping_s1) ''s1'' = Some ''bd-1''" by code_simp
  have h1': "map_of (todos mapping_s1) ''s1'' = Some [(''A'', ''bd-2'')]" by code_simp
  have h2: "''bd-1'' \<noteq> []" by simp
  have h3: "\<not> found (fst (bd_show lost_host ''bd-1'' (outside ?w)))" by code_simp
  have h4: "getOrCreateSessionIssue lost_host ''s1'' mapping_s1 ?w = (Inr (''bd-1'', ?m), ?w')"
    by code_simp
  from lost_epic_discards_todos [OF h1 h2 h3 h4]
  have "readTodosFromBeads lost_host ''s1'' ?w' = (Inr [], ?w')" by blast
  with h1 h1' h3 h4 show ?thesis by simp
qed

section \<open>A failed creation\<close>

lemma getOrCreateSessionIssue_calls:
  assumes "getOrCreateSessionIssue h sid m w = (r, w1)"
  shows "\<exists>cs. calls w1 = calls w @ cs \<and> (\<forall>c\<in>set cs. before_cleanup (fst c))"
proof (cases "\<exists>e. map_of (sessions m) sid = Some e \<and> e \<noteq> []
               \<and> found (fst (bd_show h e (outside w)))")
  case True
  then obtain e where "map_of (sessions m) sid = Some e" "e \<noteq> []"
    "found (fst (bd_show h e (outside w)))" by blast
  from getOrCreateSessionIssue_kept [OF this] assms
  have "calls w1 = calls w @ [(Show e, True)]" by auto
  then show ?thesis by simp
next
  case False
  from getOrCreateSessionIssue_lost [OF False] obtain w0 pre where
    w0: "getOrCreateSessionIssue h sid m w = createSessionIssue h sid m w0"
    and pre: "calls w0 = calls w @ pre" "pre = [] \<or> (\<exists>e ok. pre = [(Show e, ok)])"
    by auto
  from pre(2) have p: "\<forall>c\<in>set pre. before_cleanup (fst c)" by auto
  show ?thesis
  proof (rule createSessionIssue_cases [of h sid m w0])
    fix w2 ts
    assume "createSessionIssue h sid m w0 = (Inl SessionIssueError, w2)"
      "calls w2 = calls w0 @ [(Create (''OpenCode Session '' @ take 8 sid @ '' ('' @ ts @ '')'')
          ''epic'' 2 None (''Tracks todos for OpenCode session '' @ sid), False)]"
    with w0 assms pre(1) p show ?thesis by auto
  next
    fix n w2 ts t
    assume "createSessionIssue h sid m w0
         = (Inr (n, m\<lparr>sessions := AList.update sid n (sessions m),
                      todos := AList.update sid [] (todos m), lastSync := t\<rparr>), w2)"
      "calls w2 = calls w0 @ [(Create (''OpenCode Session '' @ take 8 sid @ '' ('' @ ts @ '')'')
          ''epic'' 2 None (''Tracks todos for OpenCode session '' @ sid), True)]"
    with w0 assms pre(1) p show ?thesis by auto
  qed
qed

lemma epic_found_kept:
  assumes "epic_found h sid w" and "loadMapping w = Inr m0"
  shows "\<exists>e w1. getOrCreateSessionIssue h sid m0 w = (Inr (e, m0), w1) \<and> e \<noteq> []
           \<and> map_of (sessions m0) sid = Some e
           \<and> mapping_file w1 = mapping_file w \<and> calls w1 = calls w @ [(Show e, True)]"
proof -
  from assms obtain e where e: "map_of (sessions m0) sid = Some e" "e \<noteq> []"
    "found (fst (bd_show h e (outside w)))"
    by (auto simp: epic_found_def split: option.splits)
  from getOrCreateSessionIssue_kept [OF e] e show ?thesis by blast
qed

text \<open>
  C1, as the code has it. A pass that ends with the creation error of a todo has not
  saved: the mapping file is as the resolution of the session epic left it, and is the file
  the pass began with when the recorded epic was found. The error names a todo of the
  list, and the pass has given the shell no command of the later steps (no close of a
  removed todo, no notes update or close of the epic).
\<close>

theorem failed_creation_skips_save:
  assumes "syncTodosToBeads h sid ts w = (Inl (TodoIssueError x), w')"
  shows "(\<exists>m0. loadMapping w = Inr m0
            \<and> mapping_file w' = mapping_file (snd (getOrCreateSessionIssue h sid m0 w)))
     \<and> (epic_found h sid w \<longrightarrow> mapping_file w' = mapping_file w)
     \<and> (\<exists>t\<in>set ts. x = todo_id t)
     \<and> (\<exists>cs. calls w' = calls w @ cs \<and> (\<forall>c\<in>set cs. before_cleanup (fst c)))"
  using assms
proof (cases rule: syncTodosToBeads_cases)
  case (epic_failed m0 e)
  with getOrCreateSessionIssue_error [OF epic_failed(2)] show ?thesis by simp
next
  case (todo_failed m0 epic m1 w1 e)
  note f = sync_loop_file [OF todo_failed(3)]
  from sync_loop_calls [OF todo_failed(3)] obtain cs2 where
    cs2: "calls w' = calls w1 @ cs2" "\<forall>c\<in>set cs2. before_cleanup (fst c)" by blast
  from getOrCreateSessionIssue_calls [OF todo_failed(2)] obtain cs1 where
    cs1: "calls w1 = calls w @ cs1" "\<forall>c\<in>set cs1. before_cleanup (fst c)" by blast
  have 1: "\<exists>m0. loadMapping w = Inr m0
            \<and> mapping_file w' = mapping_file (snd (getOrCreateSessionIssue h sid m0 w))"
    using todo_failed(1,2) f by simp
  have 2: "epic_found h sid w \<longrightarrow> mapping_file w' = mapping_file w"
    using epic_found_kept [of h sid w, OF _ todo_failed(1)] todo_failed(2) f by auto
  have 3: "\<exists>t\<in>set ts. x = todo_id t"
    using sync_loop_error [OF todo_failed(3)] todo_failed(4) by auto
  have "calls w' = calls w @ (cs1 @ cs2) \<and> (\<forall>c\<in>set (cs1 @ cs2). before_cleanup (fst c))"
    using cs1 cs2 by auto
  then have 4: "\<exists>cs. calls w' = calls w @ cs \<and> (\<forall>c\<in>set cs. before_cleanup (fst c))" by blast
  from 1 2 3 4 show ?thesis by blast
next
  case (finished m0 epic m1 w1 tm1 seen w2 tm2 w3)
  then show ?thesis by simp
qed

theorem failed_creation_skips_save_witness:
  "epic_found flaky_host ''s1'' (world_with (Some (Document mapping_s1)))
   \<and> mapping_file (snd (syncTodosToBeads flaky_host ''s1''
          [todo_of ''C'' pending, todo_of ''B'' pending] (world_with (Some (Document mapping_s1)))))
       = mapping_file (world_with (Some (Document mapping_s1)))"
proof -
  let ?w = "world_with (Some (Document mapping_s1))"
  let ?w' = "\<lparr>outside = 2::nat, mapping_file = Some (Document mapping_s1),
     calls = [(Show ''bd-1'', True),
        (Create ''task C'' ''task'' 1 (Some ''bd-1'') ''OpenCode todo ID: C'', True),
        (Create ''task B'' ''task'' 1 (Some ''bd-1'') ''OpenCode todo ID: B'', False)]\<rparr>"
  have run: "syncTodosToBeads flaky_host ''s1'' [todo_of ''C'' pending, todo_of ''B'' pending] ?w
      = (Inl (TodoIssueError ''B''), ?w')"
    by code_simp
  have ef: "epic_found flaky_host ''s1'' ?w" by code_simp
  from failed_creation_skips_save [OF run] ef
  have "mapping_file ?w' = mapping_file ?w" by blast
  with run ef show ?thesis by simp
qed

text \<open>
  C1 fails as stated: todo \<open>C\<close> is created in the tracker, the creation of todo \<open>B\<close>
  throws, and the mapping file after the pass is the file before it: it has no entry for
  \<open>C\<close> and its \<open>lastSync\<close> is the old one.
\<close>

theorem failed_creation_loses_progress:
  "syncTodosToBeads flaky_host ''s1'' [todo_of ''C'' pending, todo_of ''B'' pending]
       (world_with (Some (Document mapping_s1)))
     = (Inl (TodoIssueError ''B''),
        \<lparr>outside = 2, mapping_file = Some (Document mapping_s1),
          calls = [(Show ''bd-1'', True),
            (Create ''task C'' ''task'' 1 (Some ''bd-1'') ''OpenCode todo ID: C'', True),
            (Create ''task B'' ''task'' 1 (Some ''bd-1'') ''OpenCode todo ID: B'', False)]\<rparr>)
   \<and> map_of (session_todos mapping_s1 ''s1'') ''C'' = None
   \<and> lastSync mapping_s1 = 1001
   \<and> Date_now flaky_host 2 = 1002"
  by code_simp

section \<open>Removed todos\<close>


lemma recorded_todos_loaded:
  "loadMapping w = Inr m \<Longrightarrow> recorded_todos w sid = session_todos m sid"
  by (simp add: recorded_todos_def)

lemma loadMapping_saved:
  "loadMapping (snd (saveMapping h m w)) = Inr (m\<lparr>lastSync := Date_now h (outside w)\<rparr>)"
  by (simp add: saveMapping_def Let_def loadMapping_def readFile_def JSON_parse_def)

lemma calls_saved: "calls (snd (saveMapping h m w)) = calls w"
  by (simp add: saveMapping_def Let_def)

lemma recorded_todos_saved:
  "recorded_todos (snd (saveMapping h (m\<lparr>todos := AList.update sid tm (todos m)\<rparr>) w)) sid = tm"
  by (simp add: recorded_todos_loaded [OF loadMapping_saved] session_todos_def
      AList.update_conv')

lemma closing_calls:
  "\<exists>cs. calls (if c then closeSessionIssue h e ts w else w) = calls w @ cs"
  using closeSessionIssue_calls [of h e ts w] by auto

text \<open>
  C7, as the code has it. When the recorded epic of the session is found, a pass either
  ends with the creation error of a todo of the list, or returns; when it returns, it has
  given the shell, for every pair recorded at its start whose todo id is not in the list,
  a close of the pair's issue with the reason \<open>Todo removed from OpenCode\<close> (whether that
  close returned or threw is not looked at), and the mapping file it leaves records, for
  the session, only todo ids of the list. After a pass with the empty list that returned,
  reading the todos of the session back gives none.
\<close>

theorem removed_todos_are_closed:
  "(epic_found h sid w \<longrightarrow>
      (\<exists>t\<in>set ts. fst (syncTodosToBeads h sid ts w) = Inl (TodoIssueError (todo_id t)))
      \<or> (\<exists>w' cs. syncTodosToBeads h sid ts w = (Inr (), w') \<and> calls w' = calls w @ cs
            \<and> (\<forall>(k, b)\<in>set (recorded_todos w sid). k \<notin> todo_id ` set ts \<longrightarrow>
                  (\<exists>ok. (Close b ''Todo removed from OpenCode'', ok) \<in> set cs))
            \<and> fst ` set (recorded_todos w' sid) \<subseteq> todo_id ` set ts))
   \<and> (\<forall>w'. syncTodosToBeads h sid [] w = (Inr (), w')
          \<longrightarrow> readTodosFromBeads h sid w' = (Inr [], w'))"
proof (intro conjI impI allI)
  assume ef: "epic_found h sid w"
  obtain r w' where s: "syncTodosToBeads h sid ts w = (r, w')"
    by (cases "syncTodosToBeads h sid ts w")
  from s show "(\<exists>t\<in>set ts. fst (syncTodosToBeads h sid ts w) = Inl (TodoIssueError (todo_id t)))
      \<or> (\<exists>w' cs. syncTodosToBeads h sid ts w = (Inr (), w') \<and> calls w' = calls w @ cs
            \<and> (\<forall>(k, b)\<in>set (recorded_todos w sid). k \<notin> todo_id ` set ts \<longrightarrow>
                  (\<exists>ok. (Close b ''Todo removed from OpenCode'', ok) \<in> set cs))
            \<and> fst ` set (recorded_todos w' sid) \<subseteq> todo_id ` set ts)"
  proof (cases rule: syncTodosToBeads_cases)
    case (epic_failed m0 e)
    with epic_found_kept [OF ef epic_failed(1)] show ?thesis by auto
  next
    case (todo_failed m0 epic m1 w1 e)
    with sync_loop_error [OF todo_failed(3)] s show ?thesis by auto
  next
    case (finished m0 epic m1 w1 tm1 seen w2 tm2 w3)
    from epic_found_kept [OF ef finished(1)] finished(2)
    have m1: "m1 = m0" and c1: "calls w1 = calls w @ [(Show epic, True)]" by auto
    have rec: "recorded_todos w sid = session_todos m1 sid"
      using recorded_todos_loaded [OF finished(1)] m1 by simp
    have seen: "seen = todo_id ` set ts" using sync_loop_seen [OF finished(3)] by simp
    from sync_loop_calls [OF finished(3)] obtain cs2 where c2: "calls w2 = calls w1 @ cs2"
      by blast
    from delete_loop_calls [of h seen tm1 tm1 w2] finished(4) obtain cs3 where
      c3: "calls w3 = calls w2 @ cs3"
      and cl: "\<forall>(k, b)\<in>set tm1. k \<notin> seen \<longrightarrow>
                (\<exists>ok. (Close b ''Todo removed from OpenCode'', ok) \<in> set cs3)"
      by auto
    from closing_calls [of "allComplete ts \<and> ts \<noteq> []" h epic ts w3] obtain cs4 where
      c4: "calls (if allComplete ts \<and> ts \<noteq> [] then closeSessionIssue h epic ts w3 else w3)
            = calls w3 @ cs4" by blast
    let ?cs = "(Show epic, True) # cs2 @ cs3 @ cs4"
    have calls: "calls w' = calls w @ ?cs"
      using finished(5) c1 c2 c3 c4 by (simp add: calls_saved)
    have closed: "\<forall>(k, b)\<in>set (recorded_todos w sid). k \<notin> todo_id ` set ts \<longrightarrow>
                  (\<exists>ok. (Close b ''Todo removed from OpenCode'', ok) \<in> set ?cs)"
    proof (intro ballI, clarify)
      fix k b
      assume "(k, b) \<in> set (recorded_todos w sid)" and k: "k \<notin> todo_id ` set ts"
      with rec have "(k, b) \<in> set (session_todos m1 sid)" by simp
      from sync_loop_keeps [OF finished(3) this k] have "(k, b) \<in> set tm1" .
      with cl k seen obtain ok where "(Close b ''Todo removed from OpenCode'', ok) \<in> set cs3"
        by auto
      then show "\<exists>ok. (Close b ''Todo removed from OpenCode'', ok) \<in> set ?cs" by auto
    qed
    have tm2: "tm2 = filter (\<lambda>p. \<not> (fst p \<in> fst ` set tm1 \<and> fst p \<notin> seen)) tm1"
      using delete_loop_result [of h seen tm1 tm1 w2] finished(4) by simp
    have "recorded_todos w' sid = tm2" using finished(5) by (simp add: recorded_todos_saved)
    with tm2 seen have keys: "fst ` set (recorded_todos w' sid) \<subseteq> todo_id ` set ts" by auto
    from s finished(6) calls closed keys show ?thesis by blast
  qed
next
  fix w'
  assume "syncTodosToBeads h sid [] w = (Inr (), w')"
  then show "readTodosFromBeads h sid w' = (Inr [], w')"
  proof (cases rule: syncTodosToBeads_cases)
    case (finished m0 epic m1 w1 tm1 seen w2 tm2 w3)
    from finished(3) have "seen = {}" by simp
    with delete_loop_result [of h seen tm1 tm1 w2] finished(4)
    have "tm2 = filter (\<lambda>p. fst p \<notin> fst ` set tm1) tm1" by simp
    then have tm2: "tm2 = []" by (simp add: filter_empty_conv)
    let ?m = "m1\<lparr>todos := AList.update sid [] (todos m1)\<rparr>"
    from finished(5) tm2 have w': "w' = snd (saveMapping h ?m w3)" by simp
    have "loadMapping w' = Inr (?m\<lparr>lastSync := Date_now h (outside w3)\<rparr>)"
      unfolding w' by (rule loadMapping_saved)
    then show ?thesis
      by (simp add: readTodosFromBeads_def AList.update_conv')
  qed simp_all
qed


theorem removed_todos_are_closed_witness:
  "epic_found good_host ''s1'' (world_with (Some (Document mapping_s1)))
   \<and> recorded_todos (world_with (Some (Document mapping_s1))) ''s1'' = [(''A'', ''bd-2'')]
   \<and> fst (syncTodosToBeads good_host ''s1'' [] (world_with (Some (Document mapping_s1)))) = Inr ()
   \<and> (\<exists>ok. (Close ''bd-2'' ''Todo removed from OpenCode'', ok)
          \<in> set (calls (snd (syncTodosToBeads good_host ''s1'' []
                (world_with (Some (Document mapping_s1)))))))
   \<and> fst (readTodosFromBeads good_host ''s1''
        (snd (syncTodosToBeads good_host ''s1'' [] (world_with (Some (Document mapping_s1))))))
       = Inr []"
proof -
  let ?w = "world_with (Some (Document mapping_s1))"
  let ?w' = "snd (syncTodosToBeads good_host ''s1'' [] ?w)"
  have ef: "epic_found good_host ''s1'' ?w" by code_simp
  have rec: "recorded_todos ?w ''s1'' = [(''A'', ''bd-2'')]" by code_simp
  have run: "fst (syncTodosToBeads good_host ''s1'' [] ?w) = Inr ()" by code_simp
  then have run': "syncTodosToBeads good_host ''s1'' [] ?w = (Inr (), ?w')"
    by (simp add: prod_eq_iff)
  have c0: "calls ?w = []" by (simp add: world_with_def)
  note inst = removed_todos_are_closed [of good_host "''s1''" ?w "[]"]
  from inst ef run' rec c0
  have closed: "\<exists>ok. (Close ''bd-2'' ''Todo removed from OpenCode'', ok) \<in> set (calls ?w')"
    by auto
  from inst run' have "readTodosFromBeads good_host ''s1'' ?w' = (Inr [], ?w')" by blast
  with ef rec run closed show ?thesis by simp
qed

text \<open>
  C7 fails as stated when the recorded epic is not found: the pair of todo \<open>A\<close> and issue
  \<open>bd-2\<close> is recorded, \<open>A\<close> is not in the (empty) list, the pass returns, and the only
  commands it gave are the lookup of the epic and the creation of a new one; no close of
  \<open>bd-2\<close> is among them.
\<close>

theorem lost_epic_pair_not_closed:
  "recorded_todos (world_with (Some (Document mapping_s1))) ''s1'' = [(''A'', ''bd-2'')]
   \<and> syncTodosToBeads lost_host ''s1'' [] (world_with (Some (Document mapping_s1)))
     = (Inr (),
        \<lparr>outside = 2,
         mapping_file = Some (Document
            \<lparr>sessions = [(''s1'', ''bd-1'')], todos = [(''s1'', [])], lastSync = 1002\<rparr>),
         calls = [(Show ''bd-1'', False),
                  (Create ''OpenCode Session s1 (2025-01-01)'' ''epic'' 2 None
                     ''Tracks todos for OpenCode session s1'', True)]\<rparr>)"
  by code_simp

section \<open>Closing the session epic\<close>


















section \<open>Reconciling twice\<close>

lemma map_of_filter_keys:
  "k \<in> A \<Longrightarrow> map_of (filter (\<lambda>p. fst p \<in> A) al) k = map_of al k"
  by (induction al) auto

lemma delete_loop_own_entries:
  "fst (delete_loop h seen tm tm w) = filter (\<lambda>p. fst p \<in> seen) tm"
  unfolding delete_loop_result by (rule filter_cong) auto

text \<open>What a pass that returned has left in the mapping file.\<close>

lemma syncTodosToBeads_leaves:
  assumes "mints_nonempty h" and "syncTodosToBeads h sid ts w0 = (Inr (), w1)"
  shows "\<exists>m tm. mapping_file w1 = Some (Document m) \<and> map_of (todos m) sid = Some tm
           \<and> (\<forall>t\<in>set ts. truthy (map_of tm (todo_id t)))
           \<and> fst ` set tm \<subseteq> todo_id ` set ts"
  using assms(2)
proof (cases rule: syncTodosToBeads_cases)
  case (finished m0 epic ma wa tm1 seen wb tm2 wc)
  let ?w4 = "if allComplete ts \<and> ts \<noteq> [] then closeSessionIssue h epic ts wc else wc"
  let ?m = "ma\<lparr>todos := AList.update sid tm2 (todos ma), lastSync := Date_now h (outside ?w4)\<rparr>"
  have seen: "seen = todo_id ` set ts" using sync_loop_seen [OF finished(3)] by simp
  have tm2: "tm2 = filter (\<lambda>p. fst p \<in> seen) tm1"
    using delete_loop_own_entries [of h seen tm1 wb] finished(4) by simp
  have f: "mapping_file w1 = Some (Document ?m)"
    unfolding finished(5) by (simp add: saveMapping_def Let_def)
  have t: "map_of (todos ?m) sid = Some tm2" by (simp add: AList.update_conv')
  have p1: "\<forall>t\<in>set ts. truthy (map_of tm2 (todo_id t))"
  proof
    fix t assume t: "t \<in> set ts"
    with sync_loop_truthy [OF assms(1) finished(3)] have "truthy (map_of tm1 (todo_id t))" by simp
    moreover from t seen have "todo_id t \<in> seen" by simp
    ultimately show "truthy (map_of tm2 (todo_id t))" unfolding tm2
      by (simp add: map_of_filter_keys)
  qed
  have p2: "fst ` set tm2 \<subseteq> todo_id ` set ts" using tm2 seen by auto
  from f t p1 p2 show ?thesis by blast
qed simp_all

lemma closing_calls_no_create:
  "\<exists>cs. calls (if c then closeSessionIssue h e ts w else w) = calls w @ cs
     \<and> (\<forall>c\<in>set cs. \<not> is_create (fst c))"
  using closeSessionIssue_calls [of h e ts w] by auto

text \<open>
  C2. A first pass returned, and the lookup of the session's epic, made after it, finds
  the epic (the tracker hands out no empty id). Then a second pass with the same list
  returns, gives the shell no creation, and leaves in the mapping file the mapping the
  first pass left, but for \<open>lastSync\<close>.
\<close>

theorem reconcile_twice:
  assumes "mints_nonempty h"
    and "syncTodosToBeads h sid ts w0 = (Inr (), w1)"
    and "epic_found h sid w1"
  shows "\<exists>w2 cs m1 m2. syncTodosToBeads h sid ts w1 = (Inr (), w2)
       \<and> calls w2 = calls w1 @ cs \<and> (\<forall>c\<in>set cs. \<not> is_create (fst c))
       \<and> mapping_file w1 = Some (Document m1) \<and> mapping_file w2 = Some (Document m2)
       \<and> m2 = m1\<lparr>lastSync := lastSync m2\<rparr>"
proof -
  from syncTodosToBeads_leaves [OF assms(1,2)] obtain m1 tm where
    f1: "mapping_file w1 = Some (Document m1)" and tm: "map_of (todos m1) sid = Some tm"
    and p1: "\<forall>t\<in>set ts. truthy (map_of tm (todo_id t))"
    and p2: "fst ` set tm \<subseteq> todo_id ` set ts" by blast
  have l1: "loadMapping w1 = Inr m1"
    using f1 by (simp add: loadMapping_def readFile_def JSON_parse_def)
  from epic_found_kept [OF assms(3) l1] obtain e wa where
    g: "getOrCreateSessionIssue h sid m1 w1 = (Inr (e, m1), wa)"
    and ca: "calls wa = calls w1 @ [(Show e, True)]" by blast
  have st: "session_todos m1 sid = tm" using tm by (simp add: session_todos_def)
  from sync_loop_unchanged [OF p1, of h e "{}" wa] obtain wb cs2 where
    l: "sync_loop h e ts tm {} wa = (Inr (tm, {} \<union> todo_id ` set ts), wb)"
    and cb: "calls wb = calls wa @ cs2" "\<forall>c\<in>set cs2. \<not> is_create (fst c)" by blast
  have d: "delete_loop h ({} \<union> todo_id ` set ts) tm tm wb = (tm, wb)"
    by (rule delete_loop_all_seen) (use p2 in simp)
  obtain r w2 where s: "syncTodosToBeads h sid ts w1 = (r, w2)"
    by (cases "syncTodosToBeads h sid ts w1")
  from s show ?thesis
  proof (cases rule: syncTodosToBeads_cases)
    case (epic_failed m0 e')
    with l1 g show ?thesis by simp
  next
    case (todo_failed m0 epic m' w' e')
    with l1 g st l show ?thesis by simp
  next
    case (finished m0 epic m' w' tm1 seen w'' tm2 w3)
    from finished(1,2) l1 g have eq1: "epic = e" "m' = m1" "w' = wa" by simp_all
    from finished(3) eq1 st l have eq2: "tm1 = tm" "seen = {} \<union> todo_id ` set ts" "w'' = wb"
      by simp_all
    from finished(4) eq2 d have eq3: "tm2 = tm" "w3 = wb" by simp_all
    let ?w4 = "if allComplete ts \<and> ts \<noteq> [] then closeSessionIssue h e ts wb else wb"
    have same: "m1\<lparr>todos := AList.update sid tm (todos m1)\<rparr> = m1"
      using AList.update_triv [OF tm] by simp
    have w2: "w2 = snd (saveMapping h m1 ?w4)"
      using finished(5) eq1 eq3 same by simp
    let ?m2 = "m1\<lparr>lastSync := Date_now h (outside ?w4)\<rparr>"
    have f2: "mapping_file w2 = Some (Document ?m2)"
      unfolding w2 by (simp add: saveMapping_def Let_def)
    from closing_calls_no_create [of "allComplete ts \<and> ts \<noteq> []" h e ts wb] obtain cs4 where
      c4: "calls ?w4 = calls wb @ cs4" "\<forall>c\<in>set cs4. \<not> is_create (fst c)" by blast
    let ?cs = "(Show e, True) # cs2 @ cs4"
    have calls: "calls w2 = calls w1 @ ?cs"
      unfolding w2 calls_saved using c4(1) cb(1) ca by simp
    have nocreate: "\<forall>c\<in>set ?cs. \<not> is_create (fst c)" using cb(2) c4(2) by auto
    have "?m2 = m1\<lparr>lastSync := lastSync ?m2\<rparr>" by simp
    with s finished(6) calls nocreate f1 f2 show ?thesis by blast
  qed
qed


theorem reconcile_twice_witness:
  "mints_nonempty good_host
   \<and> fst (syncTodosToBeads good_host ''s1'' [todo_of ''A'' pending, todo_of ''B'' in_progress]
          (world_with None)) = Inr ()
   \<and> epic_found good_host ''s1''
        (snd (syncTodosToBeads good_host ''s1'' [todo_of ''A'' pending, todo_of ''B'' in_progress]
          (world_with None)))
   \<and> (\<exists>w2 cs m1 m2.
        syncTodosToBeads good_host ''s1'' [todo_of ''A'' pending, todo_of ''B'' in_progress]
          (snd (syncTodosToBeads good_host ''s1''
             [todo_of ''A'' pending, todo_of ''B'' in_progress] (world_with None)))
          = (Inr (), w2)
        \<and> calls w2 = calls (snd (syncTodosToBeads good_host ''s1''
             [todo_of ''A'' pending, todo_of ''B'' in_progress] (world_with None))) @ cs
        \<and> (\<forall>c\<in>set cs. \<not> is_create (fst c))
        \<and> mapping_file (snd (syncTodosToBeads good_host ''s1''
             [todo_of ''A'' pending, todo_of ''B'' in_progress] (world_with None)))
            = Some (Document m1)
        \<and> mapping_file w2 = Some (Document m2)
        \<and> m2 = m1\<lparr>lastSync := lastSync m2\<rparr>)"
proof -
  let ?ts = "[todo_of ''A'' pending, todo_of ''B'' in_progress]"
  let ?w0 = "world_with None :: nat world"
  let ?w1 = "snd (syncTodosToBeads good_host ''s1'' ?ts ?w0)"
  have h1: "mints_nonempty good_host"
    by (simp add: mints_nonempty_def good_host_def sim_host_def)
  have run: "fst (syncTodosToBeads good_host ''s1'' ?ts ?w0) = Inr ()" by code_simp
  then have h2: "syncTodosToBeads good_host ''s1'' ?ts ?w0 = (Inr (), ?w1)"
    by (simp add: prod_eq_iff)
  have h3: "epic_found good_host ''s1'' ?w1" by code_simp
  from reconcile_twice [OF h1 h2 h3] h1 run h3 show ?thesis by blast
qed

end
